theory Spec2Isabelle
  imports Complex_Main "HOL-Library.Monad_Syntax"
begin

section \<open>JavaScript values\<close>

text \<open>
  The server (src/mcp-server.ts) and the client (src/chat-client.ts) handle untyped data:
  \<open>args as any\<close>, \<open>page: any\<close>, \<open>block: any\<close>, the parsed response lines. The model
  works on the values JSON text denotes, plus \<open>undefined\<close> for an absent member.
  Finite numbers are exact rationals (every finite binary64 value is one); \<open>-0\<close> is
  identified with \<open>0\<close>. A string is the list of its code units, which the model takes
  to be 8-bit characters (text in the Latin-1 range). An object is the list of its own
  members in enumeration order, keys distinct.
\<close>

datatype number = Finite rat | NaN | PosInfinity | NegInfinity

datatype jsval =
    JUndefined
  | JNull
  | JBool bool
  | JNum number
  | JStr string
  | JArr "jsval list"
  | JObj "(string \<times> jsval) list"

text \<open>ToBoolean: what \<open>if (v)\<close>, \<open>!v\<close>, \<open>a || b\<close> and \<open>a && b\<close> test.\<close>

fun truthy :: "jsval \<Rightarrow> bool" where
  "truthy JUndefined = False"
| "truthy JNull = False"
| "truthy (JBool b) = b"
| "truthy (JNum n) = (n \<noteq> Finite 0 \<and> n \<noteq> NaN)"
| "truthy (JStr s) = (s \<noteq> [])"
| "truthy (JArr xs) = True"
| "truthy (JObj fs) = True"

definition js_or :: "jsval \<Rightarrow> jsval \<Rightarrow> jsval" where
  "js_or a b = (if truthy a then a else b)"

fun js_typeof :: "jsval \<Rightarrow> string" where
  "js_typeof JUndefined = ''undefined''"
| "js_typeof JNull = ''object''"
| "js_typeof (JBool b) = ''boolean''"
| "js_typeof (JNum n) = ''number''"
| "js_typeof (JStr s) = ''string''"
| "js_typeof (JArr xs) = ''object''"
| "js_typeof (JObj fs) = ''object''"

fun isArray :: "jsval \<Rightarrow> bool" where
  "isArray (JArr xs) = True"
| "isArray v = False"

text \<open>
  Member access \<open>v.k\<close> and \<open>v[k]\<close>. \<open>None\<close> is the TypeError that reading a member of
  \<open>undefined\<close> or \<open>null\<close> throws. A primitive, an array or an object without the member
  gives \<open>undefined\<close>. Members inherited from the built-in prototypes are not modelled,
  \<open>length\<close> apart: none of the names the source reads (properties, type, title,
  plain_text, rich_text, text, object, id, url, results, ...) is one. The one computed key,
  \<open>block[block.type]\<close>, reads an inherited member when \<open>block.type\<close> names one (such as
  \<open>constructor\<close>); that member has neither \<open>rich_text\<close> nor \<open>text\<close>, so the source returns
  the empty string there, as the model does from \<open>undefined\<close>.
\<close>

fun js_get :: "jsval \<Rightarrow> string \<Rightarrow> jsval option" where
  "js_get JUndefined k = None"
| "js_get JNull k = None"
| "js_get (JObj fs) k = Some (case map_of fs k of Some v \<Rightarrow> v | None \<Rightarrow> JUndefined)"
| "js_get (JArr xs) k =
     Some (if k = ''length'' then JNum (Finite (of_nat (length xs))) else JUndefined)"
| "js_get (JStr s) k =
     Some (if k = ''length'' then JNum (Finite (of_nat (length s))) else JUndefined)"
| "js_get (JBool b) k = Some JUndefined"
| "js_get (JNum n) k = Some JUndefined"

text \<open>\<open>k in v\<close>, for a \<open>v\<close> the source has already tested to be an object.\<close>

fun js_in :: "string \<Rightarrow> jsval \<Rightarrow> bool" where
  "js_in k (JObj fs) = (k \<in> fst ` set fs)"
| "js_in k (JArr xs) = (k = ''length'')"
| "js_in k v = False"

text \<open>The values of \<open>Object.entries(v)\<close>, for a truthy \<open>v\<close>.\<close>

fun entries_values :: "jsval \<Rightarrow> jsval list" where
  "entries_values (JObj fs) = map snd fs"
| "entries_values (JArr xs) = xs"
| "entries_values (JStr s) = map (\<lambda>c. JStr [c]) s"
| "entries_values v = []"

text \<open>
  The conversions to string, to number and to a property key take an object through
  ToPrimitive, which calls its \<open>toString\<close> and \<open>valueOf\<close> methods. A value that JSON
  text denotes has no callable member of its own: an object with an own member named
  \<open>toString\<close> hides \<open>Object.prototype.toString\<close>, the inherited \<open>valueOf\<close> returns the
  object itself, and the conversion throws a TypeError. An array is converted by \<open>join\<close>,
  which converts each element other than \<open>null\<close> and \<open>undefined\<close>. Every other value
  converts.
\<close>

fun convertible :: "jsval \<Rightarrow> bool" where
  "convertible (JObj fs) = (''toString'' \<notin> fst ` set fs)"
| "convertible (JArr xs) = list_all convertible xs"
| "convertible v = True"

text \<open>
  What the runtime computes and the repository does not define: the conversions to
  string and number of a convertible value that is not one already, \<open>JSON.stringify\<close>,
  the message of the TypeError for reading a member (given by name) of \<open>undefined\<close> or
  \<open>null\<close>, and \<open>Array.prototype.sort\<close> under the comparator of \<open>listRecentPages\<close>
  (which builds a \<open>Date\<close> from each \<open>created_time\<close>, and throws when one does not
  convert: \<open>None\<close>). The model takes them as parameters.
\<close>

record platform =
  ToString :: "jsval \<Rightarrow> string"
  ToNumber :: "jsval \<Rightarrow> number"
  JSON_stringify :: "jsval \<Rightarrow> string"
  TypeError_message :: "jsval \<Rightarrow> string \<Rightarrow> string"
  sort_created_desc :: "jsval list \<Rightarrow> jsval list option"

text \<open>ToString and ToPropertyKey; \<open>None\<close> is the TypeError.\<close>

definition to_string :: "platform \<Rightarrow> jsval \<Rightarrow> string option" where
  "to_string P v =
     (if convertible v then Some (case v of JStr s \<Rightarrow> s | _ \<Rightarrow> ToString P v) else None)"

text \<open>
  A template literal converts its substitutions to strings, in order. The source passes
  the text to \<open>console.error\<close>, which writes it to stderr; the model keeps only whether
  the conversions throw.
\<close>

definition template :: "jsval list \<Rightarrow> unit option" where
  "template vs = (if list_all convertible vs then Some () else None)"

section \<open>Text extraction (src/mcp-server.ts)\<close>

text \<open>
  \<open>extractTitle\<close>, lines 430-447. The condition of the loop,
  \<open>value && typeof value === 'object' && 'type' in value && value.type === 'title'\<close>:
\<close>

definition is_title_property :: "jsval \<Rightarrow> bool" where
  "is_title_property v \<longleftrightarrow>
     truthy v \<and> js_typeof v = ''object'' \<and> js_in ''type'' v
     \<and> js_get v ''type'' = Some (JStr ''title'')"

text \<open>
  The \<open>for\<close> loop over the entries. It returns at the first title property whose \<open>title\<close>
  is a non-empty array; \<open>None\<close> is the TypeError of \<open>title[0].plain_text\<close> on a
  \<open>null\<close> element.
\<close>

fun title_loop :: "jsval list \<Rightarrow> jsval option" where
  "title_loop [] = Some (JStr ''Untitled'')"
| "title_loop (v # rest) =
     (if is_title_property v then
        (case js_get v ''title'' of
           Some (JArr (first # others)) \<Rightarrow>
             map_option (\<lambda>p. js_or p (JStr ''Untitled'')) (js_get first ''plain_text'')
         | _ \<Rightarrow> title_loop rest)
      else title_loop rest)"

definition extractTitle_try :: "jsval \<Rightarrow> jsval option" where
  "extractTitle_try page =
     do { props \<leftarrow> js_get page ''properties'';
          if \<not> truthy props then Some (JStr ''Untitled'')
          else title_loop (entries_values props) }"

text \<open>The function with its \<open>catch\<close>; \<open>None\<close> would be an exception leaving it.\<close>

definition extractTitle :: "jsval \<Rightarrow> jsval option" where
  "extractTitle page =
     (case extractTitle_try page of Some t \<Rightarrow> Some t | None \<Rightarrow> Some (JStr ''Untitled''))"

text \<open>
  \<open>extractBlockText\<close>, lines 449-474.
  \<open>arr.map((text) => text.plain_text || '')\<close>, then \<open>.join('')\<close>: \<open>join\<close> converts
  each element to a string. In \<open>block[blockType]\<close> the type is converted to a property
  key. A conversion that throws is caught with everything else.
\<close>

fun plain_texts :: "jsval list \<Rightarrow> jsval list option" where
  "plain_texts [] = Some []"
| "plain_texts (t # ts) =
     do { p \<leftarrow> js_get t ''plain_text'';
          ps \<leftarrow> plain_texts ts;
          Some (js_or p (JStr []) # ps) }"

fun join_empty :: "platform \<Rightarrow> jsval list \<Rightarrow> string option" where
  "join_empty P [] = Some []"
| "join_empty P (v # vs) =
     do { s \<leftarrow> (if v = JUndefined \<or> v = JNull then Some [] else to_string P v);
          rest \<leftarrow> join_empty P vs;
          Some (s @ rest) }"

definition map_join :: "platform \<Rightarrow> jsval \<Rightarrow> string option" where
  "map_join P arr = do { texts \<leftarrow> plain_texts (entries_values arr); join_empty P texts }"

definition extractBlockText_try :: "platform \<Rightarrow> jsval \<Rightarrow> string option" where
  "extractBlockText_try P block =
     (if \<not> truthy block then Some []
      else do {
        blockType \<leftarrow> js_get block ''type'';
        if \<not> truthy blockType then Some []
        else do {
          key \<leftarrow> to_string P blockType;
          blockData \<leftarrow> js_get block key;
          if \<not> truthy blockData then Some []
          else do {
            rich_text \<leftarrow> js_get blockData ''rich_text'';
            if truthy rich_text \<and> isArray rich_text then map_join P rich_text
            else do {
              text \<leftarrow> js_get blockData ''text'';
              if truthy text \<and> isArray text then map_join P text
              else Some [] } } } })"

definition extractBlockText :: "platform \<Rightarrow> jsval \<Rightarrow> string option" where
  "extractBlockText P block =
     (case extractBlockText_try P block of Some s \<Rightarrow> Some s | None \<Rightarrow> Some [])"


section \<open>The content provider and the tool handlers (src/mcp-server.ts)\<close>

text \<open>
  \<open>String.prototype.trim\<close> on 8-bit strings: TAB, LF, VT, FF, CR, SP and NBSP are the white
  space and line terminator characters of that range.
\<close>

definition is_space :: "char \<Rightarrow> bool" where
  "is_space c \<longleftrightarrow> c \<in> set [CHR 0x09, CHR 0x0A, CHR 0x0B, CHR 0x0C, CHR 0x0D, CHR 0x20, CHR 0xA0]"

definition js_trim :: "string \<Rightarrow> string" where
  "js_trim s = rev (dropWhile is_space (rev (dropWhile is_space s)))"

text \<open>
  \<open>Math.min(a, b)\<close> on numbers, and the conversion of its arguments (\<open>None\<close> is the
  TypeError of a value that does not convert). The source calls it on \<open>limit\<close>, which the
  dispatcher takes from \<open>args\<close> unchecked.
\<close>

definition to_number :: "platform \<Rightarrow> jsval \<Rightarrow> number option" where
  "to_number P v =
     (if convertible v then
        Some (case v of
                JNum n \<Rightarrow> n
              | JUndefined \<Rightarrow> NaN
              | JNull \<Rightarrow> Finite 0
              | JBool b \<Rightarrow> Finite (if b then 1 else 0)
              | _ \<Rightarrow> ToNumber P v)
      else None)"

fun number_min :: "number \<Rightarrow> number \<Rightarrow> number" where
  "number_min NaN b = NaN"
| "number_min a NaN = NaN"
| "number_min NegInfinity b = NegInfinity"
| "number_min a NegInfinity = NegInfinity"
| "number_min PosInfinity b = b"
| "number_min a PosInfinity = a"
| "number_min (Finite x) (Finite y) = Finite (min x y)"

definition Math_min :: "platform \<Rightarrow> jsval \<Rightarrow> jsval \<Rightarrow> jsval option" where
  "Math_min P a b =
     do { x \<leftarrow> to_number P a;
          y \<leftarrow> to_number P b;
          Some (JNum (number_min x y)) }"

text \<open>
  The content provider (\<open>this.notion\<close>) is outside the repository. A handler's run is
  modelled with the list of the requests it has made so far; the provider answers a
  request, given the requests before it, with a value or fails (\<open>None\<close>: the awaited
  promise rejects).
\<close>

datatype call = Search jsval | BlocksChildrenList jsval

type_synonym notion = "call list \<Rightarrow> call \<Rightarrow> jsval option"

definition request :: "notion \<Rightarrow> call \<Rightarrow> call list \<Rightarrow> jsval option \<times> call list" where
  "request N c h = (N h c, h @ [c])"

text \<open>\<open>for (const x of v)\<close>: the elements of an array, the characters of a string, a
  TypeError otherwise.\<close>

fun iterate :: "jsval \<Rightarrow> jsval list option" where
  "iterate (JArr xs) = Some xs"
| "iterate (JStr s) = Some (map (\<lambda>c. JStr [c]) s)"
| "iterate v = None"

definition page_filter :: "jsval" where
  "page_filter = JObj [(''value'', JStr ''page''), (''property'', JStr ''object'')]"

definition last_edited_sort :: "jsval" where
  "last_edited_sort =
     JObj [(''direction'', JStr ''descending''), (''timestamp'', JStr ''last_edited_time'')]"

text \<open>\<open>item.object === 'page' && 'properties' in item\<close>; \<open>None\<close> when \<open>item\<close> is
  \<open>null\<close> or \<open>undefined\<close>.\<close>

definition is_page :: "jsval \<Rightarrow> bool option" where
  "is_page item =
     do { ob \<leftarrow> js_get item ''object'';
          Some (ob = JStr ''page'' \<and> js_in ''properties'' item) }"

subsection \<open>getPagePreview, lines 408-428\<close>

fun preview_loop :: "platform \<Rightarrow> jsval list \<Rightarrow> string \<Rightarrow> string option" where
  "preview_loop P [] preview = Some preview"
| "preview_loop P (block # blocks) preview =
     do { blockText \<leftarrow> extractBlockText P block;
          if js_trim blockText \<noteq> [] then
            (let preview' = preview @ blockText @ '' '' in
             if length preview' > 200 then Some preview'
             else preview_loop P blocks preview')
          else preview_loop P blocks preview }"

definition getPagePreview_try :: "platform \<Rightarrow> jsval \<Rightarrow> jsval option" where
  "getPagePreview_try P blocks =
     do { results \<leftarrow> js_get blocks ''results'';
          items \<leftarrow> iterate results;
          preview \<leftarrow> preview_loop P items [];
          Some (js_or (JStr (js_trim preview)) (JStr ''No preview available'')) }"

definition getPagePreview ::
  "platform \<Rightarrow> notion \<Rightarrow> jsval \<Rightarrow> call list \<Rightarrow> jsval option \<times> call list" where
  "getPagePreview P N pageId h =
     (case request N (BlocksChildrenList
             (JObj [(''block_id'', pageId), (''page_size'', JNum (Finite 3))])) h of
        (None, h') \<Rightarrow> (Some (JStr ''Preview unavailable''), h')
      | (Some blocks, h') \<Rightarrow>
          (case getPagePreview_try P blocks of
             None \<Rightarrow> (Some (JStr ''Preview unavailable''), h')
           | Some preview \<Rightarrow> (Some preview, h')))"

subsection \<open>searchNotion, lines 230-268\<close>

definition searchNotion_params :: "jsval \<Rightarrow> jsval \<Rightarrow> jsval" where
  "searchNotion_params query n =
     JObj [(''query'', query), (''page_size'', n), (''filter'', page_filter)]"

text \<open>
  The \<open>try\<close> block up to its request: the first log line, whose template converts
  \<open>query\<close> and \<open>limit\<close>, then the argument of \<open>notion.search\<close>. \<open>None\<close> when a
  conversion throws; the \<open>catch\<close> then returns before any request is made.
\<close>

definition searchNotion_request :: "platform \<Rightarrow> jsval \<Rightarrow> jsval \<Rightarrow> call option" where
  "searchNotion_request P query limit =
     do { template [query, limit];
          n \<leftarrow> Math_min P limit (JNum (Finite 100));
          Some (Search (searchNotion_params query n)) }"

fun searchNotion_loop ::
  "platform \<Rightarrow> notion \<Rightarrow> jsval list \<Rightarrow> jsval list \<Rightarrow> call list
     \<Rightarrow> jsval list option \<times> call list" where
  "searchNotion_loop P N [] results h = (Some results, h)"
| "searchNotion_loop P N (item # items) results h =
     (case is_page item of
        None \<Rightarrow> (None, h)
      | Some False \<Rightarrow> searchNotion_loop P N items results h
      | Some True \<Rightarrow>
          (case extractTitle item of
             None \<Rightarrow> (None, h)
           | Some title \<Rightarrow>
               (case js_get item ''id'' of
                  None \<Rightarrow> (None, h)
                | Some pageId \<Rightarrow>
                    (case getPagePreview P N pageId h of
                       (None, h') \<Rightarrow> (None, h')
                     | (Some content, h') \<Rightarrow>
                         (case js_get item ''url'' of
                            None \<Rightarrow> (None, h')
                          | Some url \<Rightarrow>
                              searchNotion_loop P N items
                                (results @
                                   [JObj [(''id'', pageId), (''title'', title),
                                          (''content'', content),
                                          (''url'', js_or url (JStr [])),
                                          (''type'', JStr ''page'')]]) h')))))"

text \<open>The second log line converts \<open>response.results.length\<close>.\<close>

definition searchNotion_try ::
  "platform \<Rightarrow> notion \<Rightarrow> jsval \<Rightarrow> call list \<Rightarrow> jsval list option \<times> call list" where
  "searchNotion_try P N response h =
     (case do { results \<leftarrow> js_get response ''results'';
                n \<leftarrow> js_get results ''length'';
                template [n];
                iterate results } of
        None \<Rightarrow> (None, h)
      | Some items \<Rightarrow> searchNotion_loop P N items [] h)"

definition searchNotion ::
  "platform \<Rightarrow> notion \<Rightarrow> jsval \<Rightarrow> jsval \<Rightarrow> jsval option \<times> call list" where
  "searchNotion P N query limit =
     (case searchNotion_request P query limit of
        None \<Rightarrow> (Some (JArr []), [])
      | Some c \<Rightarrow>
          (case request N c [] of
             (None, h) \<Rightarrow> (Some (JArr []), h)
           | (Some response, h) \<Rightarrow>
               (case searchNotion_try P N response h of
                  (None, h') \<Rightarrow> (Some (JArr []), h')
                | (Some results, h') \<Rightarrow> (Some (JArr results), h'))))"


subsection \<open>listRecentPages (lines 270-311) and listAllPages (lines 347-382)\<close>

text \<open>Both run the same loop over \<open>response.results\<close>.\<close>

fun pages_loop :: "jsval list \<Rightarrow> jsval list \<Rightarrow> jsval list option" where
  "pages_loop [] results = Some results"
| "pages_loop (item # items) results =
     do { page \<leftarrow> is_page item;
          if page then
            do { pageId \<leftarrow> js_get item ''id'';
                 title \<leftarrow> extractTitle item;
                 created_time \<leftarrow> js_get item ''created_time'';
                 last_edited_time \<leftarrow> js_get item ''last_edited_time'';
                 url \<leftarrow> js_get item ''url'';
                 pages_loop items
                   (results @
                      [JObj [(''id'', pageId), (''title'', title),
                             (''created_time'', created_time),
                             (''last_edited_time'', last_edited_time),
                             (''url'', js_or url (JStr []))]]) }
          else pages_loop items results }"

definition pages_try :: "jsval \<Rightarrow> jsval list option" where
  "pages_try response =
     do { results \<leftarrow> js_get response ''results'';
          items \<leftarrow> iterate results;
          pages_loop items [] }"

definition listRecentPages_params :: "jsval \<Rightarrow> jsval" where
  "listRecentPages_params n =
     JObj [(''filter'', page_filter), (''sort'', last_edited_sort), (''page_size'', n)]"

text \<open>The \<open>try\<close> block up to its request; the log line converts \<open>limit\<close> and \<open>sortBy\<close>.\<close>

definition listRecentPages_request :: "platform \<Rightarrow> jsval \<Rightarrow> jsval \<Rightarrow> call option" where
  "listRecentPages_request P limit sortBy =
     do { template [limit, sortBy];
          n \<leftarrow> Math_min P limit (JNum (Finite 100));
          Some (Search (listRecentPages_params n)) }"

definition listRecentPages ::
  "platform \<Rightarrow> notion \<Rightarrow> jsval \<Rightarrow> jsval \<Rightarrow> jsval option \<times> call list" where
  "listRecentPages P N limit sortBy =
     (case listRecentPages_request P limit sortBy of
        None \<Rightarrow> (Some (JArr []), [])
      | Some c \<Rightarrow>
          (case request N c [] of
             (None, h) \<Rightarrow> (Some (JArr []), h)
           | (Some response, h) \<Rightarrow>
               (case do { results \<leftarrow> pages_try response;
                          if sortBy = JStr ''created_time'' then sort_created_desc P results
                          else Some results } of
                  None \<Rightarrow> (Some (JArr []), h)
                | Some results \<Rightarrow> (Some (JArr results), h))))"

definition listAllPages_params :: "jsval \<Rightarrow> jsval" where
  "listAllPages_params n =
     JObj [(''filter'', page_filter), (''page_size'', n), (''sort'', last_edited_sort)]"

definition listAllPages_request :: "platform \<Rightarrow> jsval \<Rightarrow> call option" where
  "listAllPages_request P limit =
     do { template [limit];
          n \<leftarrow> Math_min P limit (JNum (Finite 100));
          Some (Search (listAllPages_params n)) }"

definition listAllPages ::
  "platform \<Rightarrow> notion \<Rightarrow> jsval \<Rightarrow> jsval option \<times> call list" where
  "listAllPages P N limit =
     (case listAllPages_request P limit of
        None \<Rightarrow> (Some (JArr []), [])
      | Some c \<Rightarrow>
          (case request N c [] of
             (None, h) \<Rightarrow> (Some (JArr []), h)
           | (Some response, h) \<Rightarrow>
               (case pages_try response of
                  None \<Rightarrow> (Some (JArr []), h)
                | Some results \<Rightarrow> (Some (JArr results), h))))"

subsection \<open>getPageTitlesOnly, lines 313-345\<close>

text \<open>\<open>response.results.filter(...)\<close> and \<open>.map(...)\<close>: methods of an array only.\<close>

fun filter_pages :: "jsval list \<Rightarrow> jsval list option" where
  "filter_pages [] = Some []"
| "filter_pages (item # items) =
     do { page \<leftarrow> is_page item;
          rest \<leftarrow> filter_pages items;
          Some (if page then item # rest else rest) }"

fun map_titles :: "jsval list \<Rightarrow> jsval list option" where
  "map_titles [] = Some []"
| "map_titles (item # items) =
     do { pageId \<leftarrow> js_get item ''id'';
          title \<leftarrow> extractTitle item;
          url \<leftarrow> js_get item ''url'';
          rest \<leftarrow> map_titles items;
          Some (JObj [(''id'', pageId), (''title'', title),
                      (''url'', js_or url (JStr []))] # rest) }"

definition getPageTitlesOnly_try :: "jsval \<Rightarrow> jsval list option" where
  "getPageTitlesOnly_try response =
     do { results \<leftarrow> js_get response ''results'';
          (case results of
             JArr items \<Rightarrow> do { pages \<leftarrow> filter_pages items; map_titles pages }
           | _ \<Rightarrow> None) }"

definition getPageTitlesOnly_params :: "jsval \<Rightarrow> jsval \<Rightarrow> jsval" where
  "getPageTitlesOnly_params query n =
     JObj ([(''filter'', page_filter), (''page_size'', n)]
           @ (if truthy query then [(''query'', query)] else []))"

text \<open>
  The \<open>try\<close> block up to its request. The parameter's default, \<open>limit: number = 10\<close>,
  stands in for \<open>undefined\<close> only; the log line converts \<open>query || 'all'\<close> and \<open>limit\<close>.
\<close>

definition getPageTitlesOnly_request :: "platform \<Rightarrow> jsval \<Rightarrow> jsval \<Rightarrow> call option" where
  "getPageTitlesOnly_request P query limit =
     (let limit' = (if limit = JUndefined then JNum (Finite 10) else limit) in
      do { template [js_or query (JStr ''all''), limit'];
           n \<leftarrow> Math_min P limit' (JNum (Finite 100));
           Some (Search (getPageTitlesOnly_params query n)) })"

definition getPageTitlesOnly ::
  "platform \<Rightarrow> notion \<Rightarrow> jsval \<Rightarrow> jsval \<Rightarrow> jsval option \<times> call list" where
  "getPageTitlesOnly P N query limit =
     (case getPageTitlesOnly_request P query limit of
        None \<Rightarrow> (Some (JArr []), [])
      | Some c \<Rightarrow>
          (case request N c [] of
             (None, h) \<Rightarrow> (Some (JArr []), h)
           | (Some response, h) \<Rightarrow>
               (case getPageTitlesOnly_try response of
                  None \<Rightarrow> (Some (JArr []), h)
                | Some results \<Rightarrow> (Some (JArr results), h))))"

subsection \<open>getPageContent, lines 384-406\<close>

fun content_loop :: "platform \<Rightarrow> jsval list \<Rightarrow> string \<Rightarrow> string option" where
  "content_loop P [] content = Some content"
| "content_loop P (block # blocks) content =
     do { blockText \<leftarrow> extractBlockText P block;
          if js_trim blockText \<noteq> [] then content_loop P blocks (content @ blockText @ [CHR 0x0A])
          else content_loop P blocks content }"

definition getPageContent_try :: "platform \<Rightarrow> jsval \<Rightarrow> string option" where
  "getPageContent_try P blocks =
     do { results \<leftarrow> js_get blocks ''results'';
          items \<leftarrow> iterate results;
          content \<leftarrow> content_loop P items [];
          Some (if js_trim content \<noteq> [] then js_trim content else ''No content found'') }"

text \<open>The \<open>try\<close> block up to its request; the log line converts \<open>pageId\<close>.\<close>

definition getPageContent_request :: "jsval \<Rightarrow> call option" where
  "getPageContent_request pageId =
     do { template [pageId];
          Some (BlocksChildrenList
                  (JObj [(''block_id'', pageId), (''page_size'', JNum (Finite 100))])) }"

definition getPageContent ::
  "platform \<Rightarrow> notion \<Rightarrow> jsval \<Rightarrow> string option \<times> call list" where
  "getPageContent P N pageId =
     (case getPageContent_request pageId of
        None \<Rightarrow> (Some ''Error retrieving content'', [])
      | Some c \<Rightarrow>
          (case request N c [] of
             (None, h) \<Rightarrow> (Some ''Error retrieving content'', h)
           | (Some blocks, h) \<Rightarrow>
               (case getPageContent_try P blocks of
                  None \<Rightarrow> (Some ''Error retrieving content'', h)
                | Some content \<Rightarrow> (Some content, h))))"

section \<open>The tool registry and the dispatcher (src/mcp-server.ts, lines 38-228)\<close>

text \<open>The names of the tools the \<open>ListToolsRequestSchema\<close> handler lists, in its order.\<close>

definition registered_tools :: "string list" where
  "registered_tools =
     [''search_notion'', ''list_recent_pages'', ''get_page_titles_only'',
      ''get_page_content'', ''list_all_pages'']"

text \<open>
  What the \<open>try\<close> block of the \<open>CallToolRequestSchema\<close> handler can throw: the
  \<open>Error\<close> of its \<open>default\<close> case, the TypeError of reading a member of an \<open>args\<close> that
  is \<open>undefined\<close> or \<open>null\<close> (with that value and the member's name), and whatever a
  tool handler would let escape (nothing, as shown below).
\<close>

datatype exn = Error string | TypeError jsval string | Thrown

record tool_response =
  content_text :: string
  isError :: bool

definition arg :: "jsval \<Rightarrow> string \<Rightarrow> exn + jsval" where
  "arg args k = (case js_get args k of None \<Rightarrow> Inl (TypeError args k) | Some v \<Rightarrow> Inr v)"

text \<open>The \<open>return\<close> of a list-style case: \<open>text: JSON.stringify(results)\<close>, no \<open>isError\<close>.\<close>

definition stringified ::
  "platform \<Rightarrow> jsval option \<times> call list \<Rightarrow> (exn + tool_response) \<times> call list" where
  "stringified P r =
     (case r of
        (None, h) \<Rightarrow> (Inl Thrown, h)
      | (Some results, h) \<Rightarrow>
          (Inr \<lparr>content_text = JSON_stringify P results, isError = False\<rparr>, h))"

definition call_tool_try ::
  "platform \<Rightarrow> notion \<Rightarrow> string \<Rightarrow> jsval \<Rightarrow> (exn + tool_response) \<times> call list" where
  "call_tool_try P N name args =
     (if name = ''search_notion'' then
        (case arg args ''query'' of Inl e \<Rightarrow> (Inl e, [])
         | Inr query \<Rightarrow>
        (case arg args ''limit'' of Inl e \<Rightarrow> (Inl e, [])
         | Inr limit \<Rightarrow>
             stringified P (searchNotion P N query (js_or limit (JNum (Finite 10))))))
      else if name = ''list_recent_pages'' then
        (case arg args ''limit'' of Inl e \<Rightarrow> (Inl e, [])
         | Inr limit \<Rightarrow>
        (case arg args ''sort'' of Inl e \<Rightarrow> (Inl e, [])
         | Inr sortBy \<Rightarrow>
             stringified P (listRecentPages P N (js_or limit (JNum (Finite 10)))
                              (js_or sortBy (JStr ''last_edited_time'')))))
      else if name = ''get_page_titles_only'' then
        (case arg args ''query'' of Inl e \<Rightarrow> (Inl e, [])
         | Inr query \<Rightarrow>
        (case arg args ''limit'' of Inl e \<Rightarrow> (Inl e, [])
         | Inr limit \<Rightarrow>
             stringified P (getPageTitlesOnly P N query (js_or limit (JNum (Finite 10))))))
      else if name = ''list_all_pages'' then
        (case arg args ''limit'' of Inl e \<Rightarrow> (Inl e, [])
         | Inr limit \<Rightarrow>
             stringified P (listAllPages P N (js_or limit (JNum (Finite 20)))))
      else if name = ''get_page_content'' then
        (case arg args ''pageId'' of Inl e \<Rightarrow> (Inl e, [])
         | Inr pageId \<Rightarrow>
             (case getPageContent P N pageId of
                (None, h) \<Rightarrow> (Inl Thrown, h)
              | (Some content, h) \<Rightarrow>
                  (Inr \<lparr>content_text = content, isError = False\<rparr>, h)))
      else (Inl (Error (''Unknown tool: '' @ name)), []))"

text \<open>\<open>error instanceof Error ? error.message : 'Unknown error'\<close>\<close>

definition errorMessage :: "platform \<Rightarrow> exn \<Rightarrow> string" where
  "errorMessage P e =
     (case e of
        Error m \<Rightarrow> m
      | TypeError base k \<Rightarrow> TypeError_message P base k
      | Thrown \<Rightarrow> ''Unknown error'')"

text \<open>The handler with its \<open>catch\<close>; \<open>None\<close> would be an exception leaving it.\<close>

definition call_tool ::
  "platform \<Rightarrow> notion \<Rightarrow> string \<Rightarrow> jsval \<Rightarrow> tool_response option \<times> call list" where
  "call_tool P N name args =
     (case call_tool_try P N name args of
        (Inr r, h) \<Rightarrow> (Some r, h)
      | (Inl e, h) \<Rightarrow>
          (Some \<lparr>content_text = JSON_stringify P (JObj [(''error'', JStr (errorMessage P e))]),
                 isError = True\<rparr>, h))"

text \<open>The page size of a request to the provider.\<close>

definition page_size :: "call \<Rightarrow> jsval option" where
  "page_size c = (case c of Search p \<Rightarrow> js_get p ''page_size''
                   | BlocksChildrenList p \<Rightarrow> js_get p ''page_size'')"


section \<open>Collaborators for the examples\<close>

text \<open>
  The properties below hold for every platform and every provider. The examples run the
  model with the following ones. The platform's conversions are written out for the
  values the examples contain: strings, booleans, \<open>null\<close>, \<open>undefined\<close>, numbers of
  integral value (printed in decimal; the runtime prints them so below \<open>10^21\<close>), and
  convertible arrays and objects of these.
\<close>

fun show_nat :: "nat \<Rightarrow> string" where
  "show_nat n =
     (if n < 10 then [char_of (48 + n)]
      else show_nat (n div 10) @ [char_of (48 + n mod 10)])"

definition show_number :: "number \<Rightarrow> string" where
  "show_number n =
     (case n of
        NaN \<Rightarrow> ''NaN''
      | PosInfinity \<Rightarrow> ''Infinity''
      | NegInfinity \<Rightarrow> ''-Infinity''
      | Finite q \<Rightarrow> (if q < 0 then ''-'' else []) @ show_nat (nat \<lfloor>\<bar>q\<bar>\<rfloor>))"

fun join_with :: "string \<Rightarrow> string list \<Rightarrow> string" where
  "join_with sep [] = []"
| "join_with sep [s] = s"
| "join_with sep (s # t # ss) = s @ sep @ join_with sep (t # ss)"

text \<open>ToString.\<close>

fun show_value :: "jsval \<Rightarrow> string" where
  "show_value JUndefined = ''undefined''"
| "show_value JNull = ''null''"
| "show_value (JBool b) = (if b then ''true'' else ''false'')"
| "show_value (JNum n) = show_number n"
| "show_value (JStr s) = s"
| "show_value (JArr xs) =
     join_with '','' (map (\<lambda>x. if x = JUndefined \<or> x = JNull then [] else show_value x) xs)"
| "show_value (JObj fs) = ''[object Object]''"

text \<open>\<open>JSON.stringify\<close>, without indentation.\<close>

definition hex_digit :: "nat \<Rightarrow> char" where
  "hex_digit d = (if d < 10 then char_of (48 + d) else char_of (87 + d))"

definition escape :: "char \<Rightarrow> string" where
  "escape c =
     (if c = CHR 0x22 then [CHR 0x5C, CHR 0x22]
      else if c = CHR 0x5C then [CHR 0x5C, CHR 0x5C]
      else if c = CHR 0x08 then [CHR 0x5C, CHR ''b'']
      else if c = CHR 0x0C then [CHR 0x5C, CHR ''f'']
      else if c = CHR 0x0A then [CHR 0x5C, CHR ''n'']
      else if c = CHR 0x0D then [CHR 0x5C, CHR ''r'']
      else if c = CHR 0x09 then [CHR 0x5C, CHR ''t'']
      else if (of_char c :: nat) < 32 then
        [CHR 0x5C, CHR ''u'', CHR ''0'', CHR ''0'',
         hex_digit (of_char c div 16), hex_digit (of_char c mod 16)]
      else [c])"

definition quote :: "string \<Rightarrow> string" where
  "quote s = [CHR 0x22] @ concat (map escape s) @ [CHR 0x22]"

fun stringify :: "jsval \<Rightarrow> string" where
  "stringify JUndefined = ''undefined''"
| "stringify JNull = ''null''"
| "stringify (JBool b) = (if b then ''true'' else ''false'')"
| "stringify (JNum n) = (case n of Finite q \<Rightarrow> show_number n | _ \<Rightarrow> ''null'')"
| "stringify (JStr s) = quote s"
| "stringify (JArr xs) =
     ''['' @ join_with '','' (map (\<lambda>x. if x = JUndefined then ''null'' else stringify x) xs)
       @ '']''"
| "stringify (JObj fs) =
     ''{'' @ join_with '',''
         (map (\<lambda>kv. quote (fst kv) @ '':'' @ stringify (snd kv))
            (filter (\<lambda>kv. snd kv \<noteq> JUndefined) fs))
       @ ''}''"

text \<open>
  ToNumber of a string of decimal digits (white space trimmed, the empty string is 0);
  every other string is taken to NaN. An array is converted through its string, an object
  through \<open>[object Object]\<close>.
\<close>

definition string_to_number :: "string \<Rightarrow> number" where
  "string_to_number s =
     (let t = js_trim s in
      if list_all (\<lambda>c. 48 \<le> (of_char c :: nat) \<and> (of_char c :: nat) \<le> 57) t
      then Finite (of_nat (foldl (\<lambda>a c. 10 * a + (of_char c - 48)) 0 t))
      else NaN)"

definition digits_to_number :: "jsval \<Rightarrow> number" where
  "digits_to_number v =
     (case v of
        JStr s \<Rightarrow> string_to_number s
      | JArr xs \<Rightarrow> string_to_number (show_value v)
      | _ \<Rightarrow> NaN)"

text \<open>The message V8 gives the TypeError.\<close>

definition cannot_read :: "jsval \<Rightarrow> string \<Rightarrow> string" where
  "cannot_read base k =
     ''Cannot read properties of '' @ show_value base @ '' (reading '' @ [CHR 0x27] @ k
       @ [CHR 0x27] @ '')''"

text \<open>
  The sort of \<open>listRecentPages\<close>, newest first and stable, comparing the \<open>created_time\<close>
  texts; timestamps in one format (ISO 8601, UTC), as the provider sends them, are
  ordered as their dates are.
\<close>

fun text_less :: "string \<Rightarrow> string \<Rightarrow> bool" where
  "text_less [] [] = False"
| "text_less [] (y # ys) = True"
| "text_less (x # xs) [] = False"
| "text_less (x # xs) (y # ys) =
     ((of_char x :: nat) < of_char y \<or> (x = y \<and> text_less xs ys))"

definition created_text :: "jsval \<Rightarrow> string" where
  "created_text item = (case js_get item ''created_time'' of Some (JStr s) \<Rightarrow> s | _ \<Rightarrow> [])"

fun insert_newest :: "jsval \<Rightarrow> jsval list \<Rightarrow> jsval list" where
  "insert_newest x [] = [x]"
| "insert_newest x (y # ys) =
     (if text_less (created_text x) (created_text y) then y # insert_newest x ys
      else x # y # ys)"

text \<open>
  The comparator runs on every element of a list of two or more, and throws at a
  \<open>created_time\<close> that does not convert.
\<close>

definition created_convertible :: "jsval \<Rightarrow> bool" where
  "created_convertible item =
     (case js_get item ''created_time'' of Some v \<Rightarrow> convertible v | None \<Rightarrow> False)"

definition sort_newest :: "jsval list \<Rightarrow> jsval list option" where
  "sort_newest xs =
     (if 2 \<le> length xs \<and> \<not> list_all created_convertible xs then None
      else Some (foldr insert_newest xs []))"

definition example_platform :: platform where
  "example_platform =
     \<lparr>ToString = show_value,
      ToNumber = digits_to_number,
      JSON_stringify = stringify,
      TypeError_message = cannot_read,
      sort_created_desc = sort_newest\<rparr>"

text \<open>A provider that knows one page of two blocks.\<close>

definition example_page :: jsval where
  "example_page =
     JObj [(''object'', JStr ''page''), (''id'', JStr ''p1''),
           (''url'', JStr ''https://notion.so/p1''),
           (''properties'',
              JObj [(''Name'',
                 JObj [(''type'', JStr ''title''),
                       (''title'', JArr [JObj [(''plain_text'', JStr ''Doc A'')]])])])]"

definition example_blocks :: jsval where
  "example_blocks =
     JObj [(''results'',
        JArr [JObj [(''type'', JStr ''paragraph''),
                    (''paragraph'',
                       JObj [(''rich_text'', JArr [JObj [(''plain_text'', JStr ''Hello'')]])])],
              JObj [(''type'', JStr ''divider''), (''divider'', JObj [])]])]"

definition example_notion :: notion where
  "example_notion h c =
     (case c of
        Search p \<Rightarrow> Some (JObj [(''results'', JArr [example_page])])
      | BlocksChildrenList p \<Rightarrow> Some example_blocks)"


section \<open>Notions the properties are stated with\<close>

text \<open>
  \<open>page_properties\<close> are the values the loop of \<open>extractTitle\<close> runs over. A
  well-formed title property, as the provider documents it: an object of type \<open>title\<close>
  whose \<open>title\<close> is a non-empty array of rich-text objects, the \<open>plain_text\<close> of the
  first one a string.
\<close>

definition page_properties :: "jsval \<Rightarrow> jsval list" where
  "page_properties page =
     (case js_get page ''properties'' of
        Some props \<Rightarrow> if truthy props then entries_values props else []
      | None \<Rightarrow> [])"

definition well_formed_title :: "jsval \<Rightarrow> bool" where
  "well_formed_title v \<longleftrightarrow>
     (case v of
        JObj fs \<Rightarrow>
          map_of fs ''type'' = Some (JStr ''title'') \<and>
          (case map_of fs ''title'' of
             Some (JArr (JObj first # others)) \<Rightarrow>
               (case map_of first ''plain_text'' of Some (JStr s) \<Rightarrow> True | _ \<Rightarrow> False)
           | _ \<Rightarrow> False)
      | _ \<Rightarrow> False)"

text \<open>
  What the loop of \<open>extractTitle\<close> asks of a property to return \<open>t\<close> from it: an object
  of type \<open>title\<close> whose \<open>title\<close> is a non-empty array with the truthy value \<open>t\<close>, of
  any type, as the \<open>plain_text\<close> of its first element.
\<close>

definition titled :: "jsval \<Rightarrow> jsval \<Rightarrow> bool" where
  "titled v t \<longleftrightarrow>
     is_title_property v \<and> truthy t \<and>
     (case js_get v ''title'' of
        Some (JArr (first # others)) \<Rightarrow> js_get first ''plain_text'' = Some t
      | _ \<Rightarrow> False)"

text \<open>A page whose one title property carries the number 42 as its \<open>plain_text\<close>.\<close>

definition numbered_title :: jsval where
  "numbered_title =
     JObj [(''type'', JStr ''title''),
           (''title'', JArr [JObj [(''plain_text'', JNum (Finite 42))]])]"

definition numbered_page :: jsval where
  "numbered_page = JObj [(''properties'', JObj [(''Name'', numbered_title)])]"

text \<open>
  The list-style tools, and the \<open>default\<close> their \<open>inputSchema\<close> documents for \<open>limit\<close>
  (lines 53-57, 68-72, 92-96 and 120-124 of the tool list).
\<close>

definition list_tools :: "string list" where
  "list_tools =
     [''search_notion'', ''list_recent_pages'', ''get_page_titles_only'', ''list_all_pages'']"

definition limit_default :: "string \<Rightarrow> rat" where
  "limit_default name = (if name = ''list_all_pages'' then 20 else 10)"

text \<open>The page size of the first request of a run, which is the tool's own search.\<close>

definition requested_page_size :: "call list \<Rightarrow> jsval option" where
  "requested_page_size h = (case h of [] \<Rightarrow> None | c # cs \<Rightarrow> page_size c)"

text \<open>A member of a value that has members.\<close>

definition get_member :: "jsval \<Rightarrow> string \<Rightarrow> jsval" where
  "get_member args k = (case js_get args k of Some v \<Rightarrow> v | None \<Rightarrow> JUndefined)"

text \<open>
  The arguments besides \<open>limit\<close> that a list-style tool writes to its log before its
  request (\<open>query\<close> for \<open>search_notion\<close> and \<open>get_page_titles_only\<close>, \<open>sort\<close> for
  \<open>list_recent_pages\<close>) convert to strings.
\<close>

definition log_converts :: "string \<Rightarrow> jsval \<Rightarrow> bool" where
  "log_converts name args \<longleftrightarrow>
     (if name = ''search_notion'' \<or> name = ''get_page_titles_only''
      then convertible (get_member args ''query'')
      else if name = ''list_recent_pages'' then convertible (get_member args ''sort'')
      else True)"

text \<open>The response of a list-style tool with the empty list.\<close>

definition empty_list_response :: "platform \<Rightarrow> tool_response" where
  "empty_list_response P = \<lparr>content_text = JSON_stringify P (JArr []), isError = False\<rparr>"

text \<open>\<open>args\<close> without its \<open>limit\<close> member, and with \<open>limit\<close> set to a number.\<close>

definition without_limit :: "(string \<times> jsval) list \<Rightarrow> (string \<times> jsval) list" where
  "without_limit fs = filter (\<lambda>kv. fst kv \<noteq> ''limit'') fs"

definition with_limit :: "rat \<Rightarrow> (string \<times> jsval) list \<Rightarrow> (string \<times> jsval) list" where
  "with_limit d fs = (''limit'', JNum (Finite d)) # without_limit fs"



section \<open>The RPC client (src/chat-client.ts)\<close>

text \<open>
  What a caller of \<open>sendMCPRequest\<close> gets: its promise resolves with a result, or rejects
  with \<open>new Error(message)\<close> for the \<open>error.message\<close> of a response (the Error is
  represented by the value it is constructed from), or rejects with the Error of the
  timeout, whose message (a Korean text) no 8-bit string of the model equals.
\<close>

datatype outcome = Resolved jsval | Rejected_Error jsval | Rejected_Timeout

text \<open>
  The request objects the client builds (\<open>{jsonrpc: "2.0", id, method, params}\<close>); the
  \<open>id\<close> is always a result of \<open>getNextId\<close>.
\<close>

record request =
  req_id :: int
  req_method :: string
  req_params :: jsval

text \<open>
  One call of \<open>sendMCPRequest\<close>: the \<open>request.id\<close> its closures captured, its timer
  (the delay in milliseconds while armed, \<open>None\<close> once cleared or fired) and its promise
  (\<open>None\<close> while unsettled).
\<close>

record caller =
  call_id :: int
  timer :: "nat option"
  promise :: "outcome option"

text \<open>
  The state of \<open>TerminalChatClient\<close> as far as the RPC layer goes: the fields
  \<open>requestId\<close>, \<open>pendingRequests\<close> (an entry holds the \<open>resolve\<close> and \<open>reject\<close>
  closures of one call, named here by the call's index in \<open>callers\<close>) and \<open>mcpProcess\<close>
  (whether it is set), and around them the calls made so far, the requests written to the
  subprocess's stdin, and the status of \<open>process.exit\<close> once called.
\<close>

record client =
  requestId :: int
  pendingRequests :: "int \<Rightarrow> nat option"
  mcpProcess :: bool
  callers :: "caller list"
  stdin :: "request list"
  exit_status :: "int option"

text \<open>The client once \<open>initializeMCP\<close> has spawned the server (line 40).\<close>

definition spawned :: client where
  "spawned =
     \<lparr>requestId = 0, pendingRequests = (\<lambda>k. None), mcpProcess = True,
      callers = [], stdin = [], exit_status = None\<rparr>"

text \<open>
  \<open>++this.requestId\<close> (line 119). The field is a binary64 number that starts at 0: adding
  1 is exact below \<open>2^53\<close>; at \<open>2^53\<close> the sum \<open>2^53 + 1\<close> is not representable and
  rounds (to even) back to \<open>2^53\<close>.
\<close>

definition increment :: "int \<Rightarrow> int" where
  "increment n = (if n < 2 ^ 53 then n + 1 else n)"

definition getNextId :: "client \<Rightarrow> int \<times> client" where
  "getNextId c = (let n = increment (requestId c) in (n, c\<lparr>requestId := n\<rparr>))"

text \<open>Changing one call's record.\<close>

definition update_caller :: "nat \<Rightarrow> (caller \<Rightarrow> caller) \<Rightarrow> client \<Rightarrow> client" where
  "update_caller h f c =
     (if h < length (callers c) then c\<lparr>callers := (callers c)[h := f (callers c ! h)]\<rparr> else c)"

text \<open>\<open>clearTimeout(timeout)\<close>, and settling a promise, which only the first time counts.\<close>

definition clearTimeout :: "nat \<Rightarrow> client \<Rightarrow> client" where
  "clearTimeout h c = update_caller h (\<lambda>k. k\<lparr>timer := None\<rparr>) c"

definition settle :: "nat \<Rightarrow> outcome \<Rightarrow> client \<Rightarrow> client" where
  "settle h out c =
     update_caller h
       (\<lambda>k. k\<lparr>promise := (case promise k of None \<Rightarrow> Some out | Some old \<Rightarrow> Some old)\<rparr>) c"

text \<open>The closures stored in a pending entry (lines 134-141).\<close>

definition entry_resolve :: "nat \<Rightarrow> jsval \<Rightarrow> client \<Rightarrow> client" where
  "entry_resolve h result c = settle h (Resolved result) (clearTimeout h c)"

definition entry_reject :: "nat \<Rightarrow> jsval \<Rightarrow> client \<Rightarrow> client" where
  "entry_reject h message c = settle h (Rejected_Error message) (clearTimeout h c)"

text \<open>
  \<open>sendMCPRequest\<close> (lines 122-146): it throws without a process; otherwise it arms the
  timer (20000 ms), stores the entry under \<open>request.id\<close> and writes the request. The
  result names the new call.
\<close>

definition sendMCPRequest :: "client \<Rightarrow> request \<Rightarrow> (nat \<times> client) option" where
  "sendMCPRequest c req =
     (if \<not> mcpProcess c then None
      else Some (length (callers c),
        c\<lparr>callers := callers c @ [\<lparr>call_id = req_id req, timer = Some 20000, promise = None\<rparr>],
          pendingRequests := (pendingRequests c)(req_id req := Some (length (callers c))),
          stdin := stdin c @ [req]\<rparr>))"

text \<open>The callback of the timer of call \<open>h\<close> (lines 128-131); an unarmed timer never fires.\<close>

definition on_timeout :: "nat \<Rightarrow> client \<Rightarrow> client" where
  "on_timeout h c =
     (if h < length (callers c) \<and> timer (callers c ! h) \<noteq> None then
        settle h Rejected_Timeout
          ((update_caller h (\<lambda>k. k\<lparr>timer := None\<rparr>) c)
             \<lparr>pendingRequests := (pendingRequests c)(call_id (callers c ! h) := None)\<rparr>)
      else c)"

text \<open>
  \<open>callMCPTool\<close> (lines 148-159) up to its \<open>await\<close>, and the handshake request of
  \<open>initializeMCP\<close> (lines 73-87). The id is allocated while the request object is built,
  before \<open>sendMCPRequest\<close> can throw.
\<close>

definition callMCPTool :: "client \<Rightarrow> string \<Rightarrow> jsval \<Rightarrow> nat option \<times> client" where
  "callMCPTool c toolName params =
     (let (n, c') = getNextId c in
      case sendMCPRequest c'
             \<lparr>req_id = n, req_method = ''tools/call'',
              req_params = JObj [(''name'', JStr toolName), (''arguments'', params)]\<rparr> of
        None \<Rightarrow> (None, c')
      | Some (h, c'') \<Rightarrow> (Some h, c''))"

definition initialize_params :: jsval where
  "initialize_params =
     JObj [(''protocolVersion'', JStr ''2024-11-05''),
           (''capabilities'', JObj [(''tools'', JObj [])]),
           (''clientInfo'',
              JObj [(''name'', JStr ''notion-chat-client''), (''version'', JStr ''1.0.0'')])]"

definition initialize :: "client \<Rightarrow> nat option \<times> client" where
  "initialize c =
     (let (n, c') = getNextId c in
      case sendMCPRequest c'
             \<lparr>req_id = n, req_method = ''initialize'', req_params = initialize_params\<rparr> of
        None \<Rightarrow> (None, c')
      | Some (h, c'') \<Rightarrow> (Some h, c''))"

text \<open>
  The handler of the subprocess's \<open>exit\<close> event (lines 50-55); the code is \<open>null\<close>
  (\<open>None\<close>) when a signal ended the process.
\<close>

definition on_exit :: "int option \<Rightarrow> client \<Rightarrow> client" where
  "on_exit code c = (if code \<noteq> Some 0 then c\<lparr>exit_status := Some 1\<rparr> else c)"

text \<open>
  \<open>this.pendingRequests.get(response.id)\<close>: the keys are the integers \<open>getNextId\<close>
  returned, so only a number of integral value finds an entry.
\<close>

definition pending_key :: "jsval \<Rightarrow> int option" where
  "pending_key v =
     (case v of
        JNum (Finite q) \<Rightarrow> if of_int \<lfloor>q\<rfloor> = q then Some \<lfloor>q\<rfloor> else None
      | _ \<Rightarrow> None)"

definition pending_get :: "client \<Rightarrow> jsval \<Rightarrow> nat option" where
  "pending_get c v = (case pending_key v of None \<Rightarrow> None | Some k \<Rightarrow> pendingRequests c k)"

definition pending_delete :: "jsval \<Rightarrow> client \<Rightarrow> client" where
  "pending_delete v c =
     (case pending_key v of
        None \<Rightarrow> c
      | Some k \<Rightarrow> c\<lparr>pendingRequests := (pendingRequests c)(k := None)\<rparr>)"

text \<open>
  \<open>new Error(message)\<close> converts a message other than \<open>undefined\<close> to a string, and
  throws (\<open>None\<close>) when it does not convert. The Error is represented by the value it is
  constructed from.
\<close>

definition new_Error :: "jsval \<Rightarrow> jsval option" where
  "new_Error message = (if convertible message then Some message else None)"

text \<open>
  The body of the loop of \<open>handleMCPResponse\<close> (lines 99-111) for an entry that was
  found: the entry is deleted, then one of its closures is called, \<open>reject\<close> with the
  Error built from \<open>response.error.message\<close>. \<open>None\<close> when building the Error throws:
  then neither closure runs.
\<close>

definition fulfill :: "nat \<Rightarrow> jsval \<Rightarrow> client \<Rightarrow> client option" where
  "fulfill h response c =
     do { err \<leftarrow> js_get response ''error'';
          if truthy err then
            do { message \<leftarrow> js_get err ''message'';
                 e \<leftarrow> new_Error message;
                 Some (entry_reject h e c) }
          else
            do { result \<leftarrow> js_get response ''result'';
                 Some (entry_resolve h result c) } }"

text \<open>
  The \<open>try\<close> block for one line; \<open>parse\<close> is \<open>JSON.parse\<close>, \<open>None\<close> its SyntaxError.
  The second component is the state the \<open>catch\<close> finds when the block throws: for an
  entry that was found, the state without the entry.
\<close>

definition handle_line_try ::
  "(string \<Rightarrow> jsval option) \<Rightarrow> client \<Rightarrow> string \<Rightarrow> client option \<times> client" where
  "handle_line_try parse c line =
     (case parse line of
        None \<Rightarrow> (None, c)
      | Some response \<Rightarrow>
          (case js_get response ''id'' of
             None \<Rightarrow> (None, c)
           | Some rid \<Rightarrow>
               (case pending_get c rid of
                  None \<Rightarrow> (Some c, c)
                | Some h \<Rightarrow>
                    (fulfill h response (pending_delete rid c), pending_delete rid c))))"

text \<open>The line with its \<open>catch\<close>, which ignores the exception; \<open>None\<close> would be an
  exception leaving the loop body.\<close>

definition handle_line ::
  "(string \<Rightarrow> jsval option) \<Rightarrow> client \<Rightarrow> string \<Rightarrow> client option" where
  "handle_line parse c line =
     (case handle_line_try parse c line of
        (Some c', s) \<Rightarrow> Some c'
      | (None, s) \<Rightarrow> Some s)"

fun handle_lines ::
  "(string \<Rightarrow> jsval option) \<Rightarrow> client \<Rightarrow> string list \<Rightarrow> client option" where
  "handle_lines parse c [] = Some c"
| "handle_lines parse c (line # lines) =
     do { c' \<leftarrow> handle_line parse c line;
          handle_lines parse c' lines }"

text \<open>\<open>s.split('\n')\<close>\<close>

fun split_lines :: "string \<Rightarrow> string list" where
  "split_lines [] = [] # []"
| "split_lines (ch # s) =
     (if ch = CHR 0x0A then [] # split_lines s
      else (case split_lines s of
              line # lines \<Rightarrow> (ch # line) # lines
            | [] \<Rightarrow> [ch] # []))"

text \<open>
  \<open>handleMCPResponse\<close> (lines 95-116); \<open>data\<close> is the chunk after \<open>data.toString()\<close>.
\<close>

definition handleMCPResponse ::
  "(string \<Rightarrow> jsval option) \<Rightarrow> client \<Rightarrow> string \<Rightarrow> client option" where
  "handleMCPResponse parse c data =
     handle_lines parse c (filter (\<lambda>line. js_trim line \<noteq> []) (split_lines data))"

section \<open>A session of the client\<close>

text \<open>
  What happens to the client during a session: a tool call or the handshake is issued, a
  chunk arrives on the subprocess's stdout, the timer of a call fires, the subprocess
  exits or reports an error (lines 45-48). After \<open>process.exit\<close> nothing happens any more.
\<close>

datatype event =
    Call string jsval
  | Initialize
  | Data string
  | Timer nat
  | Exit "int option"
  | ProcessError

definition step :: "(string \<Rightarrow> jsval option) \<Rightarrow> client \<Rightarrow> event \<Rightarrow> client" where
  "step parse c e =
     (if exit_status c \<noteq> None then c
      else case e of
        Call toolName params \<Rightarrow> snd (callMCPTool c toolName params)
      | Initialize \<Rightarrow> snd (initialize c)
      | Data chunk \<Rightarrow> (case handleMCPResponse parse c chunk of Some c' \<Rightarrow> c' | None \<Rightarrow> c)
      | Timer h \<Rightarrow> on_timeout h c
      | Exit code \<Rightarrow> on_exit code c
      | ProcessError \<Rightarrow> c\<lparr>exit_status := Some 1\<rparr>)"

definition run :: "(string \<Rightarrow> jsval option) \<Rightarrow> client \<Rightarrow> event list \<Rightarrow> client" where
  "run parse c es = foldl (step parse) c es"

text \<open>The ids allocated by \<open>n\<close> successive calls of \<open>getNextId\<close>, in order.\<close>

fun next_ids :: "nat \<Rightarrow> client \<Rightarrow> int list" where
  "next_ids 0 c = []"
| "next_ids (Suc n) c = (let (k, c') = getNextId c in k # next_ids n c')"

section \<open>JSON.parse\<close>

text \<open>
  \<open>JSON.parse\<close> belongs to the runtime; the client's functions above take it as a
  parameter. The examples run them with this parser of the JSON grammar (ECMA-404): a
  lexer, then a parser with an explicit stack of the open arrays and objects. A number
  literal is read exactly (the runtime rounds it to the nearest binary64 value, which is
  the same value for the literals of the examples); an escape \<open>\uXXXX\<close> above
  \<open>00FF\<close> has no 8-bit character and is refused (no example uses one). A repeated key
  keeps its first place and its last value (the runtime lists integer-like keys first;
  the client reads members by name only).
\<close>

datatype token =
    LBrace | RBrace | LBracket | RBracket | Colon | Comma
  | TString string | TWord string

definition is_json_space :: "char \<Rightarrow> bool" where
  "is_json_space c \<longleftrightarrow> c \<in> set [CHR 0x20, CHR 0x09, CHR 0x0A, CHR 0x0D]"

definition digit_of :: "char \<Rightarrow> nat option" where
  "digit_of c =
     (let n = (of_char c :: nat) in if 48 \<le> n \<and> n \<le> 57 then Some (n - 48) else None)"

definition hex_of :: "char \<Rightarrow> nat option" where
  "hex_of c =
     (let n = (of_char c :: nat) in
      if 48 \<le> n \<and> n \<le> 57 then Some (n - 48)
      else if 65 \<le> n \<and> n \<le> 70 then Some (n - 55)
      else if 97 \<le> n \<and> n \<le> 102 then Some (n - 87)
      else None)"

definition is_digit :: "char \<Rightarrow> bool" where
  "is_digit c \<longleftrightarrow> digit_of c \<noteq> None"

definition is_word_char :: "char \<Rightarrow> bool" where
  "is_word_char c \<longleftrightarrow>
     (let n = (of_char c :: nat) in
      (48 \<le> n \<and> n \<le> 57) \<or> (65 \<le> n \<and> n \<le> 90) \<or> (97 \<le> n \<and> n \<le> 122)
      \<or> c = CHR ''+'' \<or> c = CHR ''-'' \<or> c = CHR ''.'')"

definition escape_char :: "char \<Rightarrow> char option" where
  "escape_char c =
     (if c = CHR 0x22 then Some (CHR 0x22)
      else if c = CHR 0x5C then Some (CHR 0x5C)
      else if c = CHR ''/'' then Some (CHR ''/'')
      else if c = CHR ''b'' then Some (CHR 0x08)
      else if c = CHR ''f'' then Some (CHR 0x0C)
      else if c = CHR ''n'' then Some (CHR 0x0A)
      else if c = CHR ''r'' then Some (CHR 0x0D)
      else if c = CHR ''t'' then Some (CHR 0x09)
      else None)"

definition punctuation :: "char \<Rightarrow> token option" where
  "punctuation c =
     (if c = CHR ''{'' then Some LBrace
      else if c = CHR ''}'' then Some RBrace
      else if c = CHR ''['' then Some LBracket
      else if c = CHR '']'' then Some RBracket
      else if c = CHR '':'' then Some Colon
      else if c = CHR '','' then Some Comma
      else None)"

datatype lexer = Idle | InWord string | InString string | InEscape string | InUnicode string "nat list"

fun lex :: "lexer \<Rightarrow> string \<Rightarrow> token list option" where
  "lex Idle [] = Some []"
| "lex (InWord w) [] = Some [TWord (rev w)]"
| "lex (InString acc) [] = None"
| "lex (InEscape acc) [] = None"
| "lex (InUnicode acc ds) [] = None"
| "lex Idle (c # cs) =
     (if is_json_space c then lex Idle cs
      else if c = CHR 0x22 then lex (InString []) cs
      else if is_word_char c then lex (InWord [c]) cs
      else (case punctuation c of
              None \<Rightarrow> None
            | Some t \<Rightarrow> map_option ((#) t) (lex Idle cs)))"
| "lex (InWord w) (c # cs) =
     (if is_word_char c then lex (InWord (c # w)) cs
      else map_option ((#) (TWord (rev w)))
        (if is_json_space c then lex Idle cs
         else if c = CHR 0x22 then lex (InString []) cs
         else (case punctuation c of
                 None \<Rightarrow> None
               | Some t \<Rightarrow> map_option ((#) t) (lex Idle cs))))"
| "lex (InString acc) (c # cs) =
     (if c = CHR 0x22 then map_option ((#) (TString (rev acc))) (lex Idle cs)
      else if c = CHR 0x5C then lex (InEscape acc) cs
      else if (of_char c :: nat) < 32 then None
      else lex (InString (c # acc)) cs)"
| "lex (InEscape acc) (c # cs) =
     (if c = CHR ''u'' then lex (InUnicode acc []) cs
      else (case escape_char c of
              None \<Rightarrow> None
            | Some e \<Rightarrow> lex (InString (e # acc)) cs))"
| "lex (InUnicode acc ds) (c # cs) =
     (case hex_of c of
        None \<Rightarrow> None
      | Some d \<Rightarrow>
          if length ds = 3 then
            (let n = foldl (\<lambda>a x. 16 * a + x) 0 (ds @ [d]) in
             if n < 256 then lex (InString (char_of n # acc)) cs else None)
          else lex (InUnicode acc (ds @ [d])) cs)"

definition digits_value :: "string \<Rightarrow> nat" where
  "digits_value ds = foldl (\<lambda>a c. 10 * a + (of_char c - 48)) 0 ds"

definition number_value :: "string \<Rightarrow> rat option" where
  "number_value w =
     (let negative = (w \<noteq> [] \<and> hd w = CHR ''-'');
          s1 = (if negative then tl w else w);
          ip = takeWhile is_digit s1;
          s2 = dropWhile is_digit s1;
          has_frac = (s2 \<noteq> [] \<and> hd s2 = CHR ''.'');
          fp = (if has_frac then takeWhile is_digit (tl s2) else []);
          s3 = (if has_frac then dropWhile is_digit (tl s2) else s2);
          has_exp = (s3 \<noteq> [] \<and> (hd s3 = CHR ''e'' \<or> hd s3 = CHR ''E''));
          s4 = (if has_exp then tl s3 else s3);
          exp_negative = (has_exp \<and> s4 \<noteq> [] \<and> hd s4 = CHR ''-'');
          s5 = (if has_exp \<and> s4 \<noteq> [] \<and> (hd s4 = CHR ''-'' \<or> hd s4 = CHR ''+'') then tl s4 else s4);
          ep = (if has_exp then takeWhile is_digit s5 else []);
          s6 = (if has_exp then dropWhile is_digit s5 else s5);
          magnitude = (of_nat (digits_value ip) + of_nat (digits_value fp) / 10 ^ length fp)
                      * (if exp_negative then 1 / 10 ^ digits_value ep else 10 ^ digits_value ep)
      in if ip \<noteq> [] \<and> (ip = ''0'' \<or> hd ip \<noteq> CHR ''0'')
            \<and> (has_frac \<longrightarrow> fp \<noteq> []) \<and> (has_exp \<longrightarrow> ep \<noteq> []) \<and> s6 = []
         then Some (if negative then - magnitude else magnitude)
         else None)"

definition word_value :: "string \<Rightarrow> jsval option" where
  "word_value w =
     (if w = ''true'' then Some (JBool True)
      else if w = ''false'' then Some (JBool False)
      else if w = ''null'' then Some JNull
      else map_option (\<lambda>q. JNum (Finite q)) (number_value w))"

fun object_members :: "(string \<times> jsval) list \<Rightarrow> (string \<times> jsval) list" where
  "object_members [] = []"
| "object_members ((k, v) # r) =
     (k, case map_of (rev r) k of Some v' \<Rightarrow> v' | None \<Rightarrow> v)
       # object_members (filter (\<lambda>kv. fst kv \<noteq> k) r)"

datatype frame = InArray "jsval list" | InObject "(string \<times> jsval) list" string

fun parse_value :: "frame list \<Rightarrow> token list \<Rightarrow> jsval option"
  and parse_after :: "jsval \<Rightarrow> frame list \<Rightarrow> token list \<Rightarrow> jsval option" where
  "parse_value st [] = None"
| "parse_value st (t # ts) =
     (case t of
        TString s \<Rightarrow> parse_after (JStr s) st ts
      | TWord w \<Rightarrow> (case word_value w of None \<Rightarrow> None | Some v \<Rightarrow> parse_after v st ts)
      | LBracket \<Rightarrow>
          (case ts of
             RBracket # ts' \<Rightarrow> parse_after (JArr []) st ts'
           | _ \<Rightarrow> parse_value (InArray [] # st) ts)
      | LBrace \<Rightarrow>
          (case ts of
             RBrace # ts' \<Rightarrow> parse_after (JObj []) st ts'
           | TString k # Colon # ts' \<Rightarrow> parse_value (InObject [] k # st) ts'
           | _ \<Rightarrow> None)
      | _ \<Rightarrow> None)"
| "parse_after v [] ts = (if ts = [] then Some v else None)"
| "parse_after v (InArray acc # st) ts =
     (case ts of
        Comma # ts' \<Rightarrow> parse_value (InArray (v # acc) # st) ts'
      | RBracket # ts' \<Rightarrow> parse_after (JArr (rev (v # acc))) st ts'
      | _ \<Rightarrow> None)"
| "parse_after v (InObject acc k # st) ts =
     (case ts of
        Comma # TString k' # Colon # ts' \<Rightarrow> parse_value (InObject ((k, v) # acc) k' # st) ts'
      | RBrace # ts' \<Rightarrow> parse_after (JObj (object_members (rev ((k, v) # acc)))) st ts'
      | _ \<Rightarrow> None)"

definition JSON_parse :: "string \<Rightarrow> jsval option" where
  "JSON_parse s = (case lex Idle s of None \<Rightarrow> None | Some ts \<Rightarrow> parse_value [] ts)"

section \<open>Notions the properties of the client are stated with\<close>

text \<open>In every call record, an armed timer goes with an unsettled promise.\<close>

definition armed_unsettled :: "client \<Rightarrow> bool" where
  "armed_unsettled c \<longleftrightarrow>
     (\<forall>h < length (callers c). timer (callers c ! h) \<noteq> None \<longrightarrow> promise (callers c ! h) = None)"

text \<open>
  The requests written so far carry the ids 1, 2, ... in order, and \<open>requestId\<close> is
  their number.
\<close>

definition ids_in_order :: "client \<Rightarrow> bool" where
  "ids_in_order c \<longleftrightarrow>
     mcpProcess c \<and> requestId c = int (length (stdin c))
     \<and> map req_id (stdin c) = map int [1..<Suc (length (stdin c))]"

text \<open>
  Every entry of the map names a call made under the entry's id whose timer is armed
  with 20000 ms.
\<close>

definition entries_armed :: "client \<Rightarrow> bool" where
  "entries_armed c \<longleftrightarrow>
     (\<forall>k h. pendingRequests c k = Some h \<longrightarrow>
        h < length (callers c) \<and> call_id (callers c ! h) = k
        \<and> timer (callers c ! h) = Some 20000)"

text \<open>A client with one tool call in flight (id 1, call 0).\<close>

definition example_client :: client where
  "example_client =
     snd (callMCPTool spawned ''get_page_titles_only'' (JObj [(''limit'', JNum (Finite 3))]))"
section \<open>Properties of the text extraction\<close>

lemma title_loop_Cons_cases:
  "title_loop (v # rest) = title_loop rest \<or>
   (\<exists>first others. is_title_property v \<and> js_get v ''title'' = Some (JArr (first # others))
      \<and> title_loop (v # rest)
          = map_option (\<lambda>p. js_or p (JStr ''Untitled'')) (js_get first ''plain_text''))"
  by (simp split: option.splits jsval.splits list.splits)

lemma title_loop_result:
  "title_loop vs = Some t \<Longrightarrow> t = JStr ''Untitled'' \<or> (\<exists>v \<in> set vs. titled v t)"
proof (induction vs)
  case Nil
  then show ?case by simp
next
  case (Cons v vs)
  from title_loop_Cons_cases[of v vs] show ?case
  proof
    assume "title_loop (v # vs) = title_loop vs"
    with Cons show ?thesis by auto
  next
    assume "\<exists>first others. is_title_property v \<and> js_get v ''title'' = Some (JArr (first # others))
      \<and> title_loop (v # vs)
          = map_option (\<lambda>p. js_or p (JStr ''Untitled'')) (js_get first ''plain_text'')"
    then obtain first others where a: "is_title_property v"
      "js_get v ''title'' = Some (JArr (first # others))"
      "title_loop (v # vs) = map_option (\<lambda>p. js_or p (JStr ''Untitled'')) (js_get first ''plain_text'')"
      by blast
    with Cons.prems obtain p where p: "js_get first ''plain_text'' = Some p"
      "t = js_or p (JStr ''Untitled'')"
      by (cases "js_get first ''plain_text''") auto
    show ?thesis
    proof (cases "truthy p")
      case True
      with a p have "titled v t" by (simp add: titled_def js_or_def)
      then show ?thesis by simp
    next
      case False
      with p show ?thesis by (simp add: js_or_def)
    qed
  qed
qed

lemma title_loop_first:
  "titled v t \<Longrightarrow> title_loop (v # rest) = Some t"
  unfolding titled_def
  by (cases "js_get v ''title''") (auto simp: js_or_def split: jsval.splits list.splits)

lemma extractTitle_result:
  assumes "extractTitle page = Some t"
  shows "t = JStr ''Untitled'' \<or> (\<exists>v \<in> set (page_properties page). titled v t)"
proof (cases "extractTitle_try page")
  case None
  with assms show ?thesis by (simp add: extractTitle_def)
next
  case (Some u)
  with assms have u: "extractTitle_try page = Some t"
    by (simp add: extractTitle_def)
  then obtain props where p: "js_get page ''properties'' = Some props"
    by (auto simp: extractTitle_try_def split: Option.bind_splits)
  show ?thesis
  proof (cases "truthy props")
    case False
    with u p show ?thesis by (simp add: extractTitle_try_def)
  next
    case True
    with u p have "title_loop (entries_values props) = Some t"
      by (simp add: extractTitle_try_def)
    from title_loop_result[OF this] p True show ?thesis
      by (simp add: page_properties_def)
  qed
qed

lemma extractTitle_total: "\<exists>t. extractTitle page = Some t"
  by (simp add: extractTitle_def split: option.splits)

lemma extractTitle_untitled:
  assumes "\<forall>v \<in> set (page_properties page). \<forall>t. \<not> titled v t"
  shows "extractTitle page = Some (JStr ''Untitled'')"
proof -
  obtain t where t: "extractTitle page = Some t"
    using extractTitle_total by blast
  from extractTitle_result[OF t] assms have "t = JStr ''Untitled''"
    by blast
  with t show ?thesis by simp
qed

lemma extractTitle_first:
  assumes "page_properties page = v # rest" and "titled v t"
  shows "extractTitle page = Some t"
proof -
  from assms(1) obtain props where p: "js_get page ''properties'' = Some props"
    "truthy props" "entries_values props = v # rest"
    by (auto simp: page_properties_def split: option.splits if_splits)
  from assms(2) have "title_loop (v # rest) = Some t"
    by (rule title_loop_first)
  with p show ?thesis
    by (simp add: extractTitle_def extractTitle_try_def)
qed

lemma extractBlockText_total: "\<exists>s. extractBlockText P block = Some s"
  by (simp add: extractBlockText_def split: option.splits)

lemma extractBlockText_no_block:
  "\<not> truthy block \<Longrightarrow> extractBlockText P block = Some []"
  by (simp add: extractBlockText_def extractBlockText_try_def)

lemma extractBlockText_no_type:
  "js_get block ''type'' = Some t \<Longrightarrow> \<not> truthy t \<Longrightarrow> extractBlockText P block = Some []"
  by (simp add: extractBlockText_def extractBlockText_try_def)

lemma extractBlockText_no_key:
  "js_get block ''type'' = Some t \<Longrightarrow> \<not> convertible t \<Longrightarrow> extractBlockText P block = Some []"
  by (simp add: extractBlockText_def extractBlockText_try_def to_string_def)

lemma extractBlockText_no_data:
  "js_get block ''type'' = Some t \<Longrightarrow> to_string P t = Some k \<Longrightarrow> js_get block k = Some d
   \<Longrightarrow> \<not> truthy d \<Longrightarrow> extractBlockText P block = Some []"
  by (simp add: extractBlockText_def extractBlockText_try_def)

lemma extractBlockText_no_fields:
  "js_get block ''type'' = Some t \<Longrightarrow> to_string P t = Some k \<Longrightarrow> js_get block k = Some d
   \<Longrightarrow> js_get d ''rich_text'' = Some r \<Longrightarrow> \<not> isArray r
   \<Longrightarrow> js_get d ''text'' = Some x \<Longrightarrow> \<not> isArray x
   \<Longrightarrow> extractBlockText P block = Some []"
  by (simp add: extractBlockText_def extractBlockText_try_def)

lemma plain_texts_strings:
  "plain_texts (map (\<lambda>s. JObj [(''plain_text'', JStr s)]) ss) = Some (map JStr ss)"
  by (induction ss) (auto simp: js_or_def)

lemma join_empty_strings: "join_empty P (map JStr ss) = Some (concat ss)"
  by (induction ss) (auto simp: to_string_def)

lemma extractBlockText_rich_text:
  assumes "truthy block" and "js_get block ''type'' = Some t" and "truthy t"
    and "to_string P t = Some k" and "js_get block k = Some d" and "truthy d"
    and "js_get d ''rich_text'' = Some (JArr (map (\<lambda>s. JObj [(''plain_text'', JStr s)]) ss))"
  shows "extractBlockText P block = Some (concat ss)"
  using assms
  by (simp add: extractBlockText_def extractBlockText_try_def map_join_def plain_texts_strings
        join_empty_strings)

text \<open>
  Claim C9, as the code has it. The text-extraction routines are total over every value:
  both always return. \<open>extractTitle\<close> returns \<open>'Untitled'\<close> or the truthy
  \<open>plain_text\<close>, of whatever type, of the first element of a title property of the page;
  so it returns \<open>'Untitled'\<close> when no property of the page has one (also when the page or
  its properties are absent), and it returns that \<open>plain_text\<close> when the page's first
  property has one. \<open>extractBlockText\<close> returns the empty string when the block is absent
  (falsy), when its \<open>type\<close> is absent (falsy) or does not convert to a key, when the
  member the type names is absent (falsy), and when neither \<open>rich_text\<close> nor \<open>text\<close> of
  that member is an array; of a \<open>rich_text\<close> array of objects with string \<open>plain_text\<close>
  it returns the concatenation.
\<close>

theorem text_extraction_total:
  "(\<exists>r. extractTitle page = Some r)
   \<and> (extractTitle page = Some r \<longrightarrow>
        r = JStr ''Untitled'' \<or> (\<exists>v \<in> set (page_properties page). titled v r))
   \<and> ((\<forall>v \<in> set (page_properties page). \<forall>r. \<not> titled v r)
        \<longrightarrow> extractTitle page = Some (JStr ''Untitled''))
   \<and> (page_properties page = v # rest \<and> titled v r \<longrightarrow> extractTitle page = Some r)
   \<and> (\<exists>s. extractBlockText P block = Some s)
   \<and> (\<not> truthy block \<longrightarrow> extractBlockText P block = Some [])
   \<and> (js_get block ''type'' = Some t \<and> \<not> truthy t \<longrightarrow> extractBlockText P block = Some [])
   \<and> (js_get block ''type'' = Some t \<and> \<not> convertible t \<longrightarrow>
        extractBlockText P block = Some [])
   \<and> (js_get block ''type'' = Some t \<and> to_string P t = Some k \<and> js_get block k = Some d
        \<and> \<not> truthy d \<longrightarrow> extractBlockText P block = Some [])
   \<and> (js_get block ''type'' = Some t \<and> to_string P t = Some k \<and> js_get block k = Some d
        \<and> js_get d ''rich_text'' = Some x \<and> \<not> isArray x
        \<and> js_get d ''text'' = Some y \<and> \<not> isArray y
        \<longrightarrow> extractBlockText P block = Some [])
   \<and> (truthy block \<and> js_get block ''type'' = Some t \<and> truthy t \<and> to_string P t = Some k
        \<and> js_get block k = Some d \<and> truthy d
        \<and> js_get d ''rich_text'' = Some (JArr (map (\<lambda>s. JObj [(''plain_text'', JStr s)]) ss))
        \<longrightarrow> extractBlockText P block = Some (concat ss))"
proof (intro conjI impI)
  show "\<exists>r. extractTitle page = Some r"
    by (rule extractTitle_total)
  show "r = JStr ''Untitled'' \<or> (\<exists>v \<in> set (page_properties page). titled v r)"
    if "extractTitle page = Some r"
    using that by (rule extractTitle_result)
  show "extractTitle page = Some (JStr ''Untitled'')"
    if "\<forall>v \<in> set (page_properties page). \<forall>r. \<not> titled v r"
    using that by (rule extractTitle_untitled)
  show "extractTitle page = Some r" if "page_properties page = v # rest \<and> titled v r"
    using extractTitle_first[of page v rest r] that by simp
  show "\<exists>s. extractBlockText P block = Some s"
    by (rule extractBlockText_total)
  show "extractBlockText P block = Some []" if "\<not> truthy block"
    using that by (rule extractBlockText_no_block)
  show "extractBlockText P block = Some []" if "js_get block ''type'' = Some t \<and> \<not> truthy t"
    using extractBlockText_no_type[of block t P] that by simp
  show "extractBlockText P block = Some []"
    if "js_get block ''type'' = Some t \<and> \<not> convertible t"
    using extractBlockText_no_key[of block t P] that by simp
  show "extractBlockText P block = Some []"
    if "js_get block ''type'' = Some t \<and> to_string P t = Some k \<and> js_get block k = Some d
        \<and> \<not> truthy d"
    using extractBlockText_no_data[of block t P k d] that by simp
  show "extractBlockText P block = Some []"
    if "js_get block ''type'' = Some t \<and> to_string P t = Some k \<and> js_get block k = Some d
        \<and> js_get d ''rich_text'' = Some x \<and> \<not> isArray x
        \<and> js_get d ''text'' = Some y \<and> \<not> isArray y"
    using extractBlockText_no_fields[of block t P k d x y] that by simp
  show "extractBlockText P block = Some (concat ss)"
    if "truthy block \<and> js_get block ''type'' = Some t \<and> truthy t \<and> to_string P t = Some k
        \<and> js_get block k = Some d \<and> truthy d
        \<and> js_get d ''rich_text'' = Some (JArr (map (\<lambda>s. JObj [(''plain_text'', JStr s)]) ss))"
    using extractBlockText_rich_text[of block t P k d ss] that by simp
qed

theorem text_extraction_total_witness:
  "extractTitle (JObj [(''properties'',
       JObj [(''Name'', JObj [(''type'', JStr ''title''), (''title'', JArr [JNull])])])])
     = Some (JStr ''Untitled'')
   \<and> extractTitle JNull = Some (JStr ''Untitled'')
   \<and> extractTitle example_page = Some (JStr ''Doc A'')
   \<and> extractBlockText example_platform JUndefined = Some []
   \<and> extractBlockText example_platform (JObj [(''id'', JStr ''b1'')]) = Some []
   \<and> extractBlockText example_platform (JObj [(''type'', JObj [(''toString'', JNull)])])
       = Some []
   \<and> extractBlockText example_platform (JObj [(''type'', JStr ''paragraph'')]) = Some []
   \<and> extractBlockText example_platform
        (JObj [(''type'', JStr ''divider''), (''divider'', JObj [])]) = Some []
   \<and> extractBlockText example_platform
        (JObj [(''type'', JStr ''paragraph''),
               (''paragraph'',
                  JObj [(''rich_text'', JArr [JObj [(''plain_text'', JStr ''Hello'')]])])])
       = Some ''Hello''"
proof -
  let ?P = example_platform
  let ?page = "JObj [(''properties'',
       JObj [(''Name'', JObj [(''type'', JStr ''title''), (''title'', JArr [JNull])])])]"
  let ?name = "JObj [(''type'', JStr ''title''),
       (''title'', JArr [JObj [(''plain_text'', JStr ''Doc A'')]])]"
  let ?b1 = "JObj [(''id'', JStr ''b1'')]"
  let ?b2 = "JObj [(''type'', JStr ''paragraph'')]"
  let ?b3 = "JObj [(''type'', JStr ''divider''), (''divider'', JObj [])]"
  let ?b4 = "JObj [(''type'', JObj [(''toString'', JNull)])]"
  let ?d5 = "JObj [(''rich_text'', JArr [JObj [(''plain_text'', JStr ''Hello'')]])]"
  let ?b5 = "JObj [(''type'', JStr ''paragraph''), (''paragraph'', ?d5)]"
  have "\<forall>v \<in> set (page_properties ?page). \<forall>r. \<not> titled v r"
    by (simp add: page_properties_def titled_def is_title_property_def)
  then have 1: "extractTitle ?page = Some (JStr ''Untitled'')"
    using text_extraction_total[of ?page _ _ _ ?P JUndefined] by blast
  have "\<forall>v \<in> set (page_properties JNull). \<forall>r. \<not> titled v r"
    by (simp add: page_properties_def)
  then have 2: "extractTitle JNull = Some (JStr ''Untitled'')"
    using text_extraction_total[of JNull _ _ _ ?P JUndefined] by blast
  have "page_properties example_page = ?name # [] \<and> titled ?name (JStr ''Doc A'')"
    by (simp add: page_properties_def example_page_def titled_def is_title_property_def)
  then have 3: "extractTitle example_page = Some (JStr ''Doc A'')"
    using text_extraction_total[of example_page "JStr ''Doc A''" ?name "[]" ?P JUndefined]
    by blast
  have 4: "extractBlockText ?P JUndefined = Some []"
    using text_extraction_total[of JNull _ _ _ ?P JUndefined] by simp
  have "js_get ?b1 ''type'' = Some JUndefined \<and> \<not> truthy JUndefined"
    by simp
  then have 5: "extractBlockText ?P ?b1 = Some []"
    using text_extraction_total[of JNull _ _ _ ?P ?b1 JUndefined] by blast
  have "js_get ?b4 ''type'' = Some (JObj [(''toString'', JNull)])
        \<and> \<not> convertible (JObj [(''toString'', JNull)])"
    by simp
  then have 6: "extractBlockText ?P ?b4 = Some []"
    using text_extraction_total[of JNull _ _ _ ?P ?b4 "JObj [(''toString'', JNull)]"] by blast
  have "js_get ?b2 ''type'' = Some (JStr ''paragraph'')
        \<and> to_string ?P (JStr ''paragraph'') = Some ''paragraph''
        \<and> js_get ?b2 ''paragraph'' = Some JUndefined
        \<and> \<not> truthy JUndefined"
    by (simp add: to_string_def)
  then have 7: "extractBlockText ?P ?b2 = Some []"
    using text_extraction_total[of JNull _ _ _ ?P ?b2 "JStr ''paragraph''" "''paragraph''"
        JUndefined]
    by blast
  have "js_get ?b3 ''type'' = Some (JStr ''divider'')
        \<and> to_string ?P (JStr ''divider'') = Some ''divider''
        \<and> js_get ?b3 ''divider'' = Some (JObj [])
        \<and> js_get (JObj []) ''rich_text'' = Some JUndefined \<and> \<not> isArray JUndefined
        \<and> js_get (JObj []) ''text'' = Some JUndefined \<and> \<not> isArray JUndefined"
    by (simp add: to_string_def)
  then have 8: "extractBlockText ?P ?b3 = Some []"
    using text_extraction_total[of JNull _ _ _ ?P ?b3 "JStr ''divider''" "''divider''"
        "JObj []" JUndefined JUndefined]
    by blast
  have "truthy ?b5 \<and> js_get ?b5 ''type'' = Some (JStr ''paragraph'')
        \<and> truthy (JStr ''paragraph'')
        \<and> to_string ?P (JStr ''paragraph'') = Some ''paragraph''
        \<and> js_get ?b5 ''paragraph'' = Some ?d5 \<and> truthy ?d5
        \<and> js_get ?d5 ''rich_text''
            = Some (JArr (map (\<lambda>s. JObj [(''plain_text'', JStr s)]) [''Hello'']))"
    by (simp add: to_string_def)
  then have "extractBlockText ?P ?b5 = Some (concat [''Hello''])"
    using text_extraction_total[of JNull _ _ _ ?P ?b5 "JStr ''paragraph''" "''paragraph''"
        ?d5 _ _ "[''Hello'']"]
    by blast
  then have 9: "extractBlockText ?P ?b5 = Some ''Hello''"
    by simp
  from 1 2 3 4 5 6 7 8 9 show ?thesis by blast
qed

text \<open>
  Claim C9 as stated fails for \<open>extractTitle\<close>: the only title property of this page
  carries the number 42 where a title's text belongs, so the page has no well-formed
  title property; \<open>extractTitle\<close> returns the number 42, not \<open>'Untitled'\<close>.
\<close>

theorem ill_formed_title_returned:
  "page_properties numbered_page = [numbered_title]
   \<and> \<not> well_formed_title numbered_title
   \<and> extractTitle numbered_page = Some (JNum (Finite 42))
   \<and> extractTitle numbered_page \<noteq> Some (JStr ''Untitled'')"
  by (simp add: numbered_page_def numbered_title_def page_properties_def well_formed_title_def
        extractTitle_def extractTitle_try_def is_title_property_def js_or_def)
section \<open>Properties of the tool handlers and the dispatcher\<close>

lemma unknown_tool_response:
  "name \<notin> set registered_tools \<Longrightarrow>
   call_tool P N name args =
     (Some \<lparr>content_text = JSON_stringify P (JObj [(''error'', JStr (''Unknown tool: '' @ name))]),
            isError = True\<rparr>, [])"
  by (simp add: registered_tools_def call_tool_def call_tool_try_def errorMessage_def)

subsection \<open>Every handler returns\<close>

lemma call_tool_total: "\<exists>r. fst (call_tool P N name args) = Some r"
  by (auto simp: call_tool_def split: prod.splits sum.splits)







subsection \<open>A failed request\<close>









subsection \<open>The requests of a run\<close>

lemma getPagePreview_log: "\<exists>t. snd (getPagePreview P N i h) = h @ t"
  by (auto simp: getPagePreview_def request_def split: option.splits)

lemma searchNotion_loop_log: "\<exists>t. snd (searchNotion_loop P N items acc h) = h @ t"
proof (induction items arbitrary: acc h)
  case Nil
  then show ?case by simp
next
  case (Cons item items)
  show ?case
  proof (cases "is_page item")
    case None
    then show ?thesis by simp
  next
    case (Some b)
    show ?thesis
    proof (cases b)
      case False
      with Some Cons show ?thesis by simp
    next
      case True
      obtain r h' where g: "getPagePreview P N (the (js_get item ''id'')) h = (r, h')"
        by (cases "getPagePreview P N (the (js_get item ''id'')) h")
      obtain t where t: "h' = h @ t"
        using getPagePreview_log[of P N "the (js_get item ''id'')" h] g by auto
      have "\<And>acc. \<exists>u. snd (searchNotion_loop P N items acc h') = h @ u"
        using Cons.IH[of _ h'] t by auto
      with Some True g t show ?thesis
        by (auto split: option.splits)
    qed
  qed
qed

lemma searchNotion_try_log: "\<exists>t. snd (searchNotion_try P N response h) = h @ t"
proof (cases "do { results \<leftarrow> js_get response ''results'';
                   n \<leftarrow> js_get results ''length'';
                   template [n];
                   iterate results }")
  case None
  then show ?thesis by (simp add: searchNotion_try_def)
next
  case (Some items)
  with searchNotion_loop_log[of P N items "[]" h] show ?thesis
    by (simp add: searchNotion_try_def)
qed

lemma searchNotion_log:
  assumes "searchNotion_request P q l = Some c"
  shows "\<exists>t. snd (searchNotion P N q l) = c # t"
proof (cases "N [] c")
  case None
  with assms show ?thesis by (simp add: searchNotion_def request_def)
next
  case (Some response)
  obtain r h' where s: "searchNotion_try P N response [c] = (r, h')"
    by (cases "searchNotion_try P N response [c]")
  with searchNotion_try_log[of P N response "[c]"] obtain t where "h' = [c] @ t"
    by auto
  with assms Some s show ?thesis
    by (auto simp: searchNotion_def request_def split: option.splits)
qed

lemma searchNotion_no_request:
  "searchNotion_request P q l = None \<Longrightarrow> searchNotion P N q l = (Some (JArr []), [])"
  by (simp add: searchNotion_def)

lemma listRecentPages_log:
  "listRecentPages_request P l s = Some c \<Longrightarrow> snd (listRecentPages P N l s) = [c]"
  by (simp add: listRecentPages_def request_def split: option.splits)

lemma listRecentPages_no_request:
  "listRecentPages_request P l s = None \<Longrightarrow> listRecentPages P N l s = (Some (JArr []), [])"
  by (simp add: listRecentPages_def)

lemma listAllPages_log:
  "listAllPages_request P l = Some c \<Longrightarrow> snd (listAllPages P N l) = [c]"
  by (simp add: listAllPages_def request_def split: option.splits)

lemma getPageTitlesOnly_log:
  "getPageTitlesOnly_request P q l = Some c \<Longrightarrow> snd (getPageTitlesOnly P N q l) = [c]"
  by (simp add: getPageTitlesOnly_def request_def split: option.splits)

lemma getPageTitlesOnly_no_request:
  "getPageTitlesOnly_request P q l = None
   \<Longrightarrow> getPageTitlesOnly P N q l = (Some (JArr []), [])"
  by (simp add: getPageTitlesOnly_def)

subsection \<open>The request of a handler called with a number\<close>

lemma Math_min_num:
  "Math_min P (JNum n) (JNum m) = Some (JNum (number_min n m))"
  by (simp add: Math_min_def to_number_def)

lemma convertible_js_or:
  "convertible d \<Longrightarrow> convertible (js_or v d) = convertible v"
  by (cases v) (auto simp: js_or_def)

lemma searchNotion_request_num:
  "searchNotion_request P q (JNum n) =
     (if convertible q
      then Some (Search (searchNotion_params q (JNum (number_min n (Finite 100)))))
      else None)"
  by (simp add: searchNotion_request_def template_def Math_min_num)

lemma listRecentPages_request_num:
  "listRecentPages_request P (JNum n) s =
     (if convertible s
      then Some (Search (listRecentPages_params (JNum (number_min n (Finite 100)))))
      else None)"
  by (simp add: listRecentPages_request_def template_def Math_min_num)

lemma getPageTitlesOnly_request_num:
  "getPageTitlesOnly_request P q (JNum n) =
     (if convertible q
      then Some (Search (getPageTitlesOnly_params q (JNum (number_min n (Finite 100)))))
      else None)"
  by (simp add: getPageTitlesOnly_request_def template_def Math_min_num convertible_js_or)

lemma listAllPages_request_num:
  "listAllPages_request P (JNum n) =
     Some (Search (listAllPages_params (JNum (number_min n (Finite 100)))))"
  by (simp add: listAllPages_request_def template_def Math_min_num)

lemma snd_stringified: "snd (stringified P r) = snd r"
  by (cases r) (auto simp: stringified_def split: option.splits)

lemma snd_call_tool: "snd (call_tool P N name args) = snd (call_tool_try P N name args)"
  by (auto simp: call_tool_def split: prod.splits sum.splits)

lemma call_tool_empty:
  "call_tool_try P N name args = stringified P (Some (JArr []), [])
   \<Longrightarrow> call_tool P N name args = (Some (empty_list_response P), [])"
  by (simp add: call_tool_def stringified_def empty_list_response_def)

lemma js_get_member: "js_get args k' = Some v \<Longrightarrow> js_get args k = Some (get_member args k)"
  by (cases args) (auto simp: get_member_def)

text \<open>
  A list-style tool whose \<open>limit\<close>, after the dispatcher's default, is the number \<open>m\<close>:
  it requests the page size \<open>min(m, 100)\<close> when the arguments it logs convert, and
  returns the empty list without any request when one does not.
\<close>

lemma call_tool_limit:
  assumes "name \<in> set list_tools" and "js_get args ''limit'' = Some v"
    and "js_or v (JNum (Finite (limit_default name))) = JNum m"
  shows "log_converts name args \<Longrightarrow>
           requested_page_size (snd (call_tool P N name args))
             = Some (JNum (number_min m (Finite 100)))"
    and "\<not> log_converts name args \<Longrightarrow>
           call_tool P N name args = (Some (empty_list_response P), [])"
proof -
  note g = js_get_member[OF assms(2)]
  from assms(1) consider "name = ''search_notion''" | "name = ''list_recent_pages''"
    | "name = ''get_page_titles_only''" | "name = ''list_all_pages''"
    by (auto simp: list_tools_def)
  then have "(log_converts name args \<longrightarrow>
           requested_page_size (snd (call_tool P N name args))
             = Some (JNum (number_min m (Finite 100))))
      \<and> (\<not> log_converts name args \<longrightarrow>
           call_tool P N name args = (Some (empty_list_response P), []))"
  proof cases
    case 1
    let ?q = "get_member args ''query''"
    from 1 assms(3) have l: "js_or v (JNum (Finite 10)) = JNum m"
      by (simp add: limit_default_def)
    have t: "call_tool_try P N name args = stringified P (searchNotion P N ?q (JNum m))"
      using 1 assms(2) l g[of "''query''"] by (simp add: call_tool_try_def arg_def)
    show ?thesis
    proof (cases "convertible ?q")
      case True
      let ?c = "Search (searchNotion_params ?q (JNum (number_min m (Finite 100))))"
      have "searchNotion_request P ?q (JNum m) = Some ?c"
        using True by (simp add: searchNotion_request_num)
      from searchNotion_log[OF this, of N] obtain u
        where "snd (searchNotion P N ?q (JNum m)) = ?c # u"
        by blast
      with t True 1 show ?thesis
        by (simp add: snd_call_tool snd_stringified requested_page_size_def page_size_def
              searchNotion_params_def log_converts_def)
    next
      case False
      then have "searchNotion_request P ?q (JNum m) = None"
        by (simp add: searchNotion_request_num)
      then have "searchNotion P N ?q (JNum m) = (Some (JArr []), [])"
        by (rule searchNotion_no_request)
      with t have "call_tool P N name args = (Some (empty_list_response P), [])"
        by (simp add: call_tool_empty)
      with False 1 show ?thesis by (simp add: log_converts_def)
    qed
  next
    case 2
    let ?s = "js_or (get_member args ''sort'') (JStr ''last_edited_time'')"
    from 2 assms(3) have l: "js_or v (JNum (Finite 10)) = JNum m"
      by (simp add: limit_default_def)
    have t: "call_tool_try P N name args = stringified P (listRecentPages P N (JNum m) ?s)"
      using 2 assms(2) l g[of "''sort''"] by (simp add: call_tool_try_def arg_def)
    have cs: "convertible ?s = convertible (get_member args ''sort'')"
      by (rule convertible_js_or) simp
    show ?thesis
    proof (cases "convertible ?s")
      case True
      let ?c = "Search (listRecentPages_params (JNum (number_min m (Finite 100))))"
      have "listRecentPages_request P (JNum m) ?s = Some ?c"
        using True by (simp add: listRecentPages_request_num)
      then have "snd (listRecentPages P N (JNum m) ?s) = [?c]"
        by (rule listRecentPages_log)
      with t True cs 2 show ?thesis
        by (simp add: snd_call_tool snd_stringified requested_page_size_def page_size_def
              listRecentPages_params_def log_converts_def)
    next
      case False
      then have "listRecentPages_request P (JNum m) ?s = None"
        by (simp add: listRecentPages_request_num)
      then have "listRecentPages P N (JNum m) ?s = (Some (JArr []), [])"
        by (rule listRecentPages_no_request)
      with t have "call_tool P N name args = (Some (empty_list_response P), [])"
        by (simp add: call_tool_empty)
      with False cs 2 show ?thesis by (simp add: log_converts_def)
    qed
  next
    case 3
    let ?q = "get_member args ''query''"
    from 3 assms(3) have l: "js_or v (JNum (Finite 10)) = JNum m"
      by (simp add: limit_default_def)
    have t: "call_tool_try P N name args = stringified P (getPageTitlesOnly P N ?q (JNum m))"
      using 3 assms(2) l g[of "''query''"] by (simp add: call_tool_try_def arg_def)
    show ?thesis
    proof (cases "convertible ?q")
      case True
      let ?c = "Search (getPageTitlesOnly_params ?q (JNum (number_min m (Finite 100))))"
      have "getPageTitlesOnly_request P ?q (JNum m) = Some ?c"
        using True by (simp add: getPageTitlesOnly_request_num)
      then have "snd (getPageTitlesOnly P N ?q (JNum m)) = [?c]"
        by (rule getPageTitlesOnly_log)
      with t True 3 show ?thesis
        by (simp add: snd_call_tool snd_stringified requested_page_size_def page_size_def
              getPageTitlesOnly_params_def log_converts_def)
    next
      case False
      then have "getPageTitlesOnly_request P ?q (JNum m) = None"
        by (simp add: getPageTitlesOnly_request_num)
      then have "getPageTitlesOnly P N ?q (JNum m) = (Some (JArr []), [])"
        by (rule getPageTitlesOnly_no_request)
      with t have "call_tool P N name args = (Some (empty_list_response P), [])"
        by (simp add: call_tool_empty)
      with False 3 show ?thesis by (simp add: log_converts_def)
    qed
  next
    case 4
    from 4 assms(3) have l: "js_or v (JNum (Finite 20)) = JNum m"
      by (simp add: limit_default_def)
    have t: "call_tool_try P N name args = stringified P (listAllPages P N (JNum m))"
      using 4 assms(2) l by (simp add: call_tool_try_def arg_def)
    let ?c = "Search (listAllPages_params (JNum (number_min m (Finite 100))))"
    have "listAllPages_request P (JNum m) = Some ?c"
      by (rule listAllPages_request_num)
    then have "snd (listAllPages P N (JNum m)) = [?c]"
      by (rule listAllPages_log)
    with t 4 show ?thesis
      by (simp add: snd_call_tool snd_stringified requested_page_size_def page_size_def
            listAllPages_params_def log_converts_def)
  qed
  then show "log_converts name args \<Longrightarrow>
           requested_page_size (snd (call_tool P N name args))
             = Some (JNum (number_min m (Finite 100)))"
    and "\<not> log_converts name args \<Longrightarrow>
           call_tool P N name args = (Some (empty_list_response P), [])"
    by blast+
qed

subsection \<open>A falsy limit\<close>

lemma map_of_without_limit:
  "map_of (without_limit fs) k = (if k = ''limit'' then None else map_of fs k)"
  by (induction fs) (auto simp: without_limit_def)

lemma map_of_with_limit:
  "map_of (with_limit d fs) k = (if k = ''limit'' then Some (JNum (Finite d)) else map_of fs k)"
  by (simp add: with_limit_def map_of_without_limit)

lemma call_tool_without_limit:
  assumes "map_of fs ''limit'' = Some v" and "\<not> truthy v"
  shows "call_tool P N name (JObj fs) = call_tool P N name (JObj (without_limit fs))"
proof -
  have "js_or v d = d" for d using assms(2) by (simp add: js_or_def)
  moreover have "js_or JUndefined d = d" for d by (simp add: js_or_def)
  ultimately have "call_tool_try P N name (JObj fs) = call_tool_try P N name (JObj (without_limit fs))"
    using assms(1)
    by (simp add: call_tool_try_def arg_def map_of_without_limit)
  then show ?thesis by (simp add: call_tool_def)
qed

lemma call_tool_with_default:
  assumes "map_of fs ''limit'' = Some v" and "\<not> truthy v"
  shows "call_tool P N name (JObj fs)
         = call_tool P N name (JObj (with_limit (limit_default name) fs))"
proof -
  have "js_or v d = d" for d using assms(2) by (simp add: js_or_def)
  moreover have "js_or (JNum (Finite 10)) d = JNum (Finite 10)"
    "js_or (JNum (Finite 20)) d = JNum (Finite 20)" for d
    by (simp_all add: js_or_def)
  ultimately have "call_tool_try P N name (JObj fs)
      = call_tool_try P N name (JObj (with_limit (limit_default name) fs))"
    using assms(1)
    by (simp add: call_tool_try_def arg_def map_of_with_limit limit_default_def)
  then show ?thesis by (simp add: call_tool_def)
qed

text \<open>
  Claim C6, as the code has it. For every invocation of a list-style tool whose \<open>limit\<close>
  argument is a number other than 0 and NaN: when the arguments the handler logs before
  its request (\<open>query\<close>, \<open>sort\<close>) convert to strings, the page size of the request to the
  provider is the minimum of that limit and 100 (a limit of 500 requests exactly 100);
  when one does not convert, the handler makes no request at all and the tool answers
  with the empty list.
\<close>

theorem limit_clamped:
  assumes "name \<in> set list_tools"
    and "js_get args ''limit'' = Some (JNum n)"
    and "n \<noteq> Finite 0" and "n \<noteq> NaN"
  shows "(log_converts name args \<longrightarrow>
            requested_page_size (snd (call_tool P N name args))
              = Some (JNum (number_min n (Finite 100))))
       \<and> (\<not> log_converts name args \<longrightarrow>
            call_tool P N name args = (Some (empty_list_response P), []))"
proof -
  have "js_or (JNum n) (JNum (Finite (limit_default name))) = JNum n"
    using assms(3,4) by (simp add: js_or_def)
  from call_tool_limit[OF assms(1,2) this, of P N] show ?thesis
    by blast
qed

theorem limit_clamped_witness:
  "requested_page_size (snd (call_tool example_platform example_notion ''search_notion''
       (JObj [(''query'', JStr ''notes''), (''limit'', JNum (Finite 500))])))
     = Some (JNum (Finite 100))
   \<and> call_tool example_platform example_notion ''search_notion''
       (JObj [(''query'', JObj [(''toString'', JNull)]), (''limit'', JNum (Finite 500))])
     = (Some (empty_list_response example_platform), [])"
proof -
  let ?a = "JObj [(''query'', JStr ''notes''), (''limit'', JNum (Finite 500))]"
  let ?b = "JObj [(''query'', JObj [(''toString'', JNull)]), (''limit'', JNum (Finite 500))]"
  have a: "log_converts ''search_notion'' ?a" and b: "\<not> log_converts ''search_notion'' ?b"
    by (simp_all add: log_converts_def get_member_def)
  have l: "''search_notion'' \<in> set list_tools"
    by (simp add: list_tools_def)
  have "requested_page_size (snd (call_tool example_platform example_notion ''search_notion'' ?a))
          = Some (JNum (number_min (Finite 500) (Finite 100)))"
    using limit_clamped[OF l, of ?a "Finite 500" example_platform example_notion] a by simp
  moreover have "call_tool example_platform example_notion ''search_notion'' ?b
          = (Some (empty_list_response example_platform), [])"
    using limit_clamped[OF l, of ?b "Finite 500" example_platform example_notion] b by simp
  ultimately show ?thesis by simp
qed

text \<open>
  Claim C6 as stated fails at \<open>limit = 0\<close>: the page size requested is 10, and the
  minimum of 0 and 100 is 0.
\<close>

theorem limit_zero_requests_default:
  "requested_page_size (snd (call_tool example_platform example_notion ''search_notion''
       (JObj [(''query'', JStr ''notes''), (''limit'', JNum (Finite 0))])))
   = Some (JNum (Finite 10))
   \<and> Math_min example_platform (JNum (Finite 0)) (JNum (Finite 100)) = Some (JNum (Finite 0))"
proof -
  let ?a = "JObj [(''query'', JStr ''notes''), (''limit'', JNum (Finite 0))]"
  have "requested_page_size (snd (call_tool example_platform example_notion ''search_notion'' ?a))
          = Some (JNum (number_min (Finite 10) (Finite 100)))"
    by (rule call_tool_limit(1)[where v = "JNum (Finite 0)"])
       (simp_all add: list_tools_def js_or_def limit_default_def log_converts_def get_member_def)
  then show ?thesis by (simp add: Math_min_num)
qed

text \<open>
  Claim C10. For every invocation of a list-style tool whose \<open>limit\<close> argument is falsy
  (0, NaN, \<open>null\<close>, \<open>false\<close>, the empty string), the handler runs with the tool's
  documented default (10, or 20 for \<open>list_all_pages\<close>): the whole run (response and
  requests) is the one of the same arguments with \<open>limit\<close> set to the default, and the
  one of the same arguments without \<open>limit\<close>. The page size requested is the default
  whenever the run makes its request (it makes none only when a logged argument does not
  convert to a string); no request asks for zero results.
\<close>

theorem falsy_limit_defaults:
  assumes "name \<in> set list_tools"
    and "map_of fs ''limit'' = Some v" and "\<not> truthy v"
  shows "call_tool P N name (JObj fs)
           = call_tool P N name (JObj (with_limit (limit_default name) fs))
         \<and> call_tool P N name (JObj fs) = call_tool P N name (JObj (without_limit fs))
         \<and> (log_converts name (JObj fs) \<longrightarrow>
              requested_page_size (snd (call_tool P N name (JObj fs)))
                = Some (JNum (Finite (limit_default name))))
         \<and> (\<not> log_converts name (JObj fs) \<longrightarrow> snd (call_tool P N name (JObj fs)) = [])"
proof -
  have g: "js_get (JObj fs) ''limit'' = Some v"
    using assms(2) by simp
  have o: "js_or v (JNum (Finite (limit_default name))) = JNum (Finite (limit_default name))"
    using assms(3) by (simp add: js_or_def)
  have m: "number_min (Finite (limit_default name)) (Finite 100) = Finite (limit_default name)"
    by (simp add: limit_default_def)
  note T = call_tool_limit[OF assms(1) g o, of P N, unfolded m]
  from T(1) have "log_converts name (JObj fs) \<longrightarrow>
      requested_page_size (snd (call_tool P N name (JObj fs)))
        = Some (JNum (Finite (limit_default name)))"
    by blast
  moreover from T(2) have "\<not> log_converts name (JObj fs) \<longrightarrow>
      snd (call_tool P N name (JObj fs)) = []"
    by simp
  ultimately show ?thesis
    using call_tool_without_limit[OF assms(2,3), of P N name]
      call_tool_with_default[OF assms(2,3), of P N name]
    by blast
qed

theorem falsy_limit_defaults_witness:
  "requested_page_size (snd (call_tool example_platform example_notion ''list_all_pages''
       (JObj [(''limit'', JNum (Finite 0))]))) = Some (JNum (Finite 20))
   \<and> call_tool example_platform example_notion ''list_all_pages''
        (JObj [(''limit'', JNum (Finite 0))])
     = call_tool example_platform example_notion ''list_all_pages'' (JObj [])
   \<and> call_tool example_platform example_notion ''list_all_pages''
        (JObj [(''limit'', JNum (Finite 0))])
     = call_tool example_platform example_notion ''list_all_pages''
        (JObj [(''limit'', JNum (Finite 20))])
   \<and> requested_page_size (snd (call_tool example_platform example_notion ''search_notion''
       (JObj [(''query'', JStr ''notes''), (''limit'', JNum NaN)]))) = Some (JNum (Finite 10))
   \<and> snd (call_tool example_platform example_notion ''search_notion''
       (JObj [(''query'', JObj [(''toString'', JNull)]), (''limit'', JNull)])) = []"
proof -
  let ?P = example_platform and ?N = example_notion
  let ?f1 = "[(''limit'', JNum (Finite 0))]"
  let ?f2 = "[(''query'', JStr ''notes''), (''limit'', JNum NaN)]"
  let ?f3 = "[(''query'', JObj [(''toString'', JNull)]), (''limit'', JNull)]"
  have l: "''list_all_pages'' \<in> set list_tools" "''search_notion'' \<in> set list_tools"
    by (simp_all add: list_tools_def)
  have c: "log_converts ''list_all_pages'' (JObj ?f1)" "log_converts ''search_notion'' (JObj ?f2)"
    "\<not> log_converts ''search_notion'' (JObj ?f3)"
    by (simp_all add: log_converts_def get_member_def)
  have w: "without_limit ?f1 = []" "with_limit 20 ?f1 = [(''limit'', JNum (Finite 20))]"
    by (simp_all add: without_limit_def with_limit_def)
  have d: "limit_default ''list_all_pages'' = 20" "limit_default ''search_notion'' = 10"
    by (simp_all add: limit_default_def)
  have a: "call_tool ?P ?N ''list_all_pages'' (JObj ?f1)
           = call_tool ?P ?N ''list_all_pages'' (JObj (with_limit (limit_default ''list_all_pages'') ?f1))
         \<and> call_tool ?P ?N ''list_all_pages'' (JObj ?f1)
           = call_tool ?P ?N ''list_all_pages'' (JObj (without_limit ?f1))
         \<and> (log_converts ''list_all_pages'' (JObj ?f1) \<longrightarrow>
              requested_page_size (snd (call_tool ?P ?N ''list_all_pages'' (JObj ?f1)))
                = Some (JNum (Finite (limit_default ''list_all_pages''))))
         \<and> (\<not> log_converts ''list_all_pages'' (JObj ?f1) \<longrightarrow>
              snd (call_tool ?P ?N ''list_all_pages'' (JObj ?f1)) = [])"
    by (rule falsy_limit_defaults[where v = "JNum (Finite 0)"]) (simp_all add: l)
  have b: "call_tool ?P ?N ''search_notion'' (JObj ?f2)
           = call_tool ?P ?N ''search_notion'' (JObj (with_limit (limit_default ''search_notion'') ?f2))
         \<and> call_tool ?P ?N ''search_notion'' (JObj ?f2)
           = call_tool ?P ?N ''search_notion'' (JObj (without_limit ?f2))
         \<and> (log_converts ''search_notion'' (JObj ?f2) \<longrightarrow>
              requested_page_size (snd (call_tool ?P ?N ''search_notion'' (JObj ?f2)))
                = Some (JNum (Finite (limit_default ''search_notion''))))
         \<and> (\<not> log_converts ''search_notion'' (JObj ?f2) \<longrightarrow>
              snd (call_tool ?P ?N ''search_notion'' (JObj ?f2)) = [])"
    by (rule falsy_limit_defaults[where v = "JNum NaN"]) (simp_all add: l)
  have e: "call_tool ?P ?N ''search_notion'' (JObj ?f3)
           = call_tool ?P ?N ''search_notion'' (JObj (with_limit (limit_default ''search_notion'') ?f3))
         \<and> call_tool ?P ?N ''search_notion'' (JObj ?f3)
           = call_tool ?P ?N ''search_notion'' (JObj (without_limit ?f3))
         \<and> (log_converts ''search_notion'' (JObj ?f3) \<longrightarrow>
              requested_page_size (snd (call_tool ?P ?N ''search_notion'' (JObj ?f3)))
                = Some (JNum (Finite (limit_default ''search_notion''))))
         \<and> (\<not> log_converts ''search_notion'' (JObj ?f3) \<longrightarrow>
              snd (call_tool ?P ?N ''search_notion'' (JObj ?f3)) = [])"
    by (rule falsy_limit_defaults[where v = JNull]) (simp_all add: l)
  from a c(1) have 1: "requested_page_size (snd (call_tool ?P ?N ''list_all_pages'' (JObj ?f1)))
      = Some (JNum (Finite 20))"
    unfolding d by blast
  from a have 2: "call_tool ?P ?N ''list_all_pages'' (JObj ?f1)
      = call_tool ?P ?N ''list_all_pages'' (JObj [])"
    unfolding w by blast
  from a have 3: "call_tool ?P ?N ''list_all_pages'' (JObj ?f1)
      = call_tool ?P ?N ''list_all_pages'' (JObj [(''limit'', JNum (Finite 20))])"
    unfolding d w by blast
  from b c(2) have 4: "requested_page_size (snd (call_tool ?P ?N ''search_notion'' (JObj ?f2)))
      = Some (JNum (Finite 10))"
    unfolding d by blast
  from e c(3) have 5: "snd (call_tool ?P ?N ''search_notion'' (JObj ?f3)) = []"
    by blast
  from 1 2 3 4 5 show ?thesis by blast
qed

text \<open>
  Claim C7. For every \<open>tools/call\<close> request whose tool name is not one of the five
  registered tools, the handler returns (no exception leaves it) a response with
  \<open>isError: true\<close> whose text is the JSON of \<open>{error: "Unknown tool: <name>"}\<close>, and
  makes no request to the provider.
\<close>

theorem unknown_tool_is_error:
  assumes "name \<notin> set registered_tools"
  shows "call_tool P N name args =
     (Some \<lparr>content_text =
               JSON_stringify P (JObj [(''error'', JStr (''Unknown tool: '' @ name))]),
            isError = True\<rparr>, [])"
  using unknown_tool_response[OF assms] .

theorem unknown_tool_is_error_witness:
  \<open>call_tool example_platform example_notion ''not_a_tool'' (JObj []) =
     (Some \<lparr>content_text = ''{"error":"Unknown tool: not_a_tool"}'', isError = True\<rparr>, [])\<close>
proof -
  have n: "''not_a_tool'' \<notin> set registered_tools"
    by (simp add: registered_tools_def)
  have t: \<open>stringify (JObj [(''error'', JStr (''Unknown tool: '' @ ''not_a_tool''))])
             = ''{"error":"Unknown tool: not_a_tool"}''\<close>
    by code_simp
  have "JSON_stringify example_platform = stringify"
    by (simp add: example_platform_def)
  with unknown_tool_is_error[OF n, of example_platform example_notion "JObj []"] t
  show ?thesis by (simp only:)
qed






section \<open>Properties of the RPC client\<close>

subsection \<open>The id allocator\<close>

lemma next_ids_below:
  "0 \<le> requestId c \<Longrightarrow> requestId c + int n \<le> 2 ^ 53
   \<Longrightarrow> next_ids n c = map (\<lambda>i. requestId c + int i) [1..<Suc n]"
proof (induction n arbitrary: c)
  case 0
  then show ?case by simp
next
  case (Suc n)
  let ?c' = "c\<lparr>requestId := requestId c + 1\<rparr>"
  from Suc.prems have lt: "requestId c < 2 ^ 53" by simp
  have g: "getNextId c = (requestId c + 1, ?c')"
    using lt by (simp add: getNextId_def increment_def Let_def)
  have "next_ids n ?c' = map (\<lambda>i. requestId ?c' + int i) [1..<Suc n]"
    using Suc.prems by (intro Suc.IH) simp_all
  also have "\<dots> = map (\<lambda>i. requestId c + int i) (map Suc [1..<Suc n])"
    by (simp add: algebra_simps)
  also have "map Suc [1..<Suc n] = [2..<Suc (Suc n)]"
    by (metis One_nat_def Suc_1 map_Suc_upt)
  finally have ih: "next_ids n ?c' = map (\<lambda>i. requestId c + int i) [2..<Suc (Suc n)]" .
  have "[1..<Suc (Suc n)] = 1 # [Suc 1..<Suc (Suc n)]"
    by (rule upt_conv_Cons) simp
  then have "[1..<Suc (Suc n)] = 1 # [2..<Suc (Suc n)]"
    by (simp only: Suc_1)
  with g ih show ?case by simp
qed

lemma next_ids_spawned:
  "int n \<le> 2 ^ 53 \<Longrightarrow> next_ids n spawned = map int [1..<Suc n]"
  using next_ids_below[of spawned n] by (simp add: spawned_def)

lemma next_ids_saturated:
  "requestId c = 2 ^ 53 \<Longrightarrow> next_ids n c = replicate n (2 ^ 53)"
proof (induction n arbitrary: c)
  case 0
  then show ?case by simp
next
  case (Suc n)
  have g: "getNextId c = (2 ^ 53, c)"
    using Suc.prems by (simp add: getNextId_def increment_def Let_def)
  with Suc show ?case by simp
qed

lemma next_ids_length: "length (next_ids n c) = n"
  by (induction n arbitrary: c) (auto simp: getNextId_def Let_def)

lemma next_ids_add:
  "next_ids (m + n) c = next_ids m c @ next_ids n (c\<lparr>requestId := (increment ^^ m) (requestId c)\<rparr>)"
proof (induction m arbitrary: c)
  case 0
  then show ?case by simp
next
  case (Suc m)
  show ?case
    by (simp add: getNextId_def Let_def Suc funpow_swap1)
qed

lemma increment_funpow:
  "0 \<le> k \<Longrightarrow> k \<le> 2 ^ 53 \<Longrightarrow> (increment ^^ m) k = min (k + int m) (2 ^ 53)"
  by (induction m) (auto simp: increment_def)

lemma next_ids_two_at_bound:
  "requestId c = 2 ^ 53 - 1 \<or> requestId c = 2 ^ 53 \<Longrightarrow> next_ids 2 c = [2 ^ 53, 2 ^ 53]"
  by (auto simp: numeral_2_eq_2 getNextId_def increment_def Let_def)

lemma ids_repeat:
  assumes "2 ^ 53 < int n"
  shows "\<not> distinct (next_ids n spawned)"
proof -
  from assms have "2 \<le> n" by simp
  then obtain m where n: "n = m + 2"
    by (metis add.commute le_Suc_ex)
  let ?c = "spawned\<lparr>requestId := (increment ^^ m) (requestId spawned)\<rparr>"
  have "(increment ^^ m) 0 = min (0 + int m) (2 ^ 53)"
    by (rule increment_funpow) simp_all
  moreover from assms n have "2 ^ 53 - 1 \<le> int m"
    by simp
  then have "min (0 + int m) (2 ^ 53) = 2 ^ 53 - 1 \<or> min (0 + int m) (2 ^ 53) = 2 ^ 53"
    by arith
  ultimately have "(increment ^^ m) 0 = 2 ^ 53 - 1 \<or> (increment ^^ m) 0 = 2 ^ 53"
    by (simp only:)
  then have r: "requestId ?c = 2 ^ 53 - 1 \<or> requestId ?c = 2 ^ 53"
    by (simp add: spawned_def)
  have "next_ids (m + 2) spawned = next_ids m spawned @ next_ids 2 ?c"
    by (rule next_ids_add)
  moreover have "next_ids 2 ?c = [2 ^ 53, 2 ^ 53]"
    using r by (rule next_ids_two_at_bound)
  ultimately show ?thesis
    by (simp only: n distinct_append distinct.simps list.set insert_iff simp_thms)
qed

subsection \<open>What the callbacks leave unchanged\<close>

lemma update_caller_frame [simp]:
  "requestId (update_caller h f c) = requestId c"
  "pendingRequests (update_caller h f c) = pendingRequests c"
  "mcpProcess (update_caller h f c) = mcpProcess c"
  "stdin (update_caller h f c) = stdin c"
  "exit_status (update_caller h f c) = exit_status c"
  "length (callers (update_caller h f c)) = length (callers c)"
  by (simp_all add: update_caller_def)

lemma update_caller_nth:
  "callers (update_caller h f c) ! i =
     (if i = h \<and> h < length (callers c) then f (callers c ! h) else callers c ! i)"
  by (simp add: update_caller_def)

lemma entry_frame [simp]:
  "requestId (entry_resolve h v c) = requestId c"
  "pendingRequests (entry_resolve h v c) = pendingRequests c"
  "mcpProcess (entry_resolve h v c) = mcpProcess c"
  "stdin (entry_resolve h v c) = stdin c"
  "exit_status (entry_resolve h v c) = exit_status c"
  "length (callers (entry_resolve h v c)) = length (callers c)"
  "requestId (entry_reject h v c) = requestId c"
  "pendingRequests (entry_reject h v c) = pendingRequests c"
  "mcpProcess (entry_reject h v c) = mcpProcess c"
  "stdin (entry_reject h v c) = stdin c"
  "exit_status (entry_reject h v c) = exit_status c"
  "length (callers (entry_reject h v c)) = length (callers c)"
  by (simp_all add: entry_resolve_def entry_reject_def settle_def clearTimeout_def)

lemma pending_delete_frame [simp]:
  "requestId (pending_delete v c) = requestId c"
  "mcpProcess (pending_delete v c) = mcpProcess c"
  "stdin (pending_delete v c) = stdin c"
  "exit_status (pending_delete v c) = exit_status c"
  "callers (pending_delete v c) = callers c"
  by (simp_all add: pending_delete_def split: option.splits)

lemma pending_delete_map:
  "pendingRequests (pending_delete v c) k =
     (if pending_key v = Some k then None else pendingRequests c k)"
  by (auto simp: pending_delete_def split: option.splits)

lemma pending_get_delete: "pending_get (pending_delete v c) v = None"
  by (simp add: pending_get_def pending_delete_map split: option.splits)

lemma fulfill_frame:
  assumes "fulfill h response c = Some c'"
  shows "requestId c' = requestId c" "pendingRequests c' = pendingRequests c"
    "mcpProcess c' = mcpProcess c" "stdin c' = stdin c" "exit_status c' = exit_status c"
    "length (callers c') = length (callers c)"
  using assms by (auto simp: fulfill_def new_Error_def split: Option.bind_splits if_splits)

lemma fulfill_result:
  assumes "fulfill h response c = Some c'"
  shows "(\<exists>v. c' = entry_resolve h v c) \<or> (\<exists>v. c' = entry_reject h v c)"
  using assms by (auto simp: fulfill_def new_Error_def split: Option.bind_splits if_splits)

subsection \<open>One response line\<close>

lemma handle_line_total: "\<exists>c'. handle_line parse c line = Some c'"
  by (auto simp: handle_line_def split: prod.splits option.splits)

lemma handle_line_unparsed: "parse line = None \<Longrightarrow> handle_line parse c line = Some c"
  by (simp add: handle_line_def handle_line_try_def)

lemma handle_line_no_id:
  "parse line = Some response \<Longrightarrow> js_get response ''id'' = None
   \<Longrightarrow> handle_line parse c line = Some c"
  by (simp add: handle_line_def handle_line_try_def)

lemma handle_line_not_pending:
  "parse line = Some response \<Longrightarrow> js_get response ''id'' = Some rid
   \<Longrightarrow> pending_get c rid = None \<Longrightarrow> handle_line parse c line = Some c"
  by (simp add: handle_line_def handle_line_try_def)

lemma handle_line_pending:
  assumes "parse line = Some response" and "js_get response ''id'' = Some rid"
    and "pending_get c rid = Some h"
  shows "handle_line parse c line =
     Some (case fulfill h response (pending_delete rid c) of
             Some c' \<Rightarrow> c' | None \<Rightarrow> pending_delete rid c)"
  using assms by (simp add: handle_line_def handle_line_try_def split: option.splits)

lemma handle_line_result:
  assumes "handle_line parse c line = Some c'"
  shows "c' = c \<or>
   (\<exists>response rid h. parse line = Some response \<and> js_get response ''id'' = Some rid
      \<and> pending_get c rid = Some h
      \<and> (fulfill h response (pending_delete rid c) = Some c' \<or> c' = pending_delete rid c))"
proof (cases "parse line")
  case None
  with assms show ?thesis by (simp add: handle_line_unparsed)
next
  case (Some response)
  show ?thesis
  proof (cases "js_get response ''id''")
    case None
    with Some assms show ?thesis by (simp add: handle_line_no_id)
  next
    case (Some rid)
    note rid = this
    show ?thesis
    proof (cases "pending_get c rid")
      case None
      with \<open>parse line = Some response\<close> rid assms show ?thesis
        by (simp add: handle_line_not_pending)
    next
      case (Some h)
      from handle_line_pending[of parse line response rid c h] \<open>parse line = Some response\<close>
        rid Some assms
      have "fulfill h response (pending_delete rid c) = Some c' \<or> c' = pending_delete rid c"
        by (cases "fulfill h response (pending_delete rid c)") auto
      with \<open>parse line = Some response\<close> rid Some show ?thesis by blast
    qed
  qed
qed

lemma handle_line_removes:
  assumes "parse line = Some response" and "js_get response ''id'' = Some rid"
    and "pending_get c rid = Some h" and "handle_line parse c line = Some c'"
  shows "pending_get c' rid = None"
    and "pendingRequests c' = pendingRequests (pending_delete rid c)"
proof -
  from handle_line_pending[of parse line response rid c h] assms
  have "fulfill h response (pending_delete rid c) = Some c' \<or> c' = pending_delete rid c"
    by (cases "fulfill h response (pending_delete rid c)") auto
  then show p: "pendingRequests c' = pendingRequests (pending_delete rid c)"
    using fulfill_frame(2) by blast
  show "pending_get c' rid = None"
    using pending_get_delete[of rid c] p by (simp add: pending_get_def split: option.splits)
qed

lemma handle_line_duplicate:
  assumes "handle_line parse c line = Some c'"
  shows "handle_line parse c' line = Some c'"
proof -
  from handle_line_result[OF assms] show ?thesis
  proof
    assume "c' = c"
    with assms show ?thesis by simp
  next
    assume "\<exists>response rid h. parse line = Some response \<and> js_get response ''id'' = Some rid
      \<and> pending_get c rid = Some h
      \<and> (fulfill h response (pending_delete rid c) = Some c' \<or> c' = pending_delete rid c)"
    then obtain response rid h where *: "parse line = Some response"
      "js_get response ''id'' = Some rid" "pending_get c rid = Some h"
      by blast
    have "pending_get c' rid = None"
      using handle_line_removes(1)[of parse line response rid c h c'] * assms by simp
    with * show ?thesis by (simp add: handle_line_not_pending)
  qed
qed


subsection \<open>One chunk\<close>

lemma split_lines_no_break: "CHR 0x0A \<notin> set s \<Longrightarrow> split_lines s = [s]"
  by (induction s) auto

lemma split_lines_break_end: "CHR 0x0A \<notin> set s \<Longrightarrow> split_lines (s @ [CHR 0x0A]) = [s, []]"
  by (induction s) auto

lemma js_trim_empty [simp]: "js_trim [] = []"
  by (simp add: js_trim_def)

lemma handle_lines_single: "handle_lines parse c [line] = handle_line parse c line"
  by simp

lemma split_lines_nonempty: "split_lines s \<noteq> []"
  by (induction s) (auto split: list.splits)

lemma split_lines_append:
  "split_lines (d1 @ CHR 0x0A # d2) = split_lines d1 @ split_lines d2"
proof (induction d1)
  case Nil
  then show ?case by simp
next
  case (Cons ch d1)
  obtain l ls where "split_lines d1 = l # ls"
    using split_lines_nonempty[of d1] by (cases "split_lines d1") auto
  with Cons show ?case by simp
qed

lemma handle_lines_append:
  "handle_lines parse c (xs @ ys)
     = Option.bind (handle_lines parse c xs) (\<lambda>c1. handle_lines parse c1 ys)"
proof (induction xs arbitrary: c)
  case Nil
  then show ?case by simp
next
  case (Cons x xs)
  then show ?case
    by (cases "handle_line parse c x") simp_all
qed

lemma handleMCPResponse_append:
  "handleMCPResponse parse c (d1 @ CHR 0x0A # d2)
     = Option.bind (handleMCPResponse parse c d1) (\<lambda>c1. handleMCPResponse parse c1 d2)"
  by (simp add: handleMCPResponse_def split_lines_append handle_lines_append)

lemma handleMCPResponse_line:
  "CHR 0x0A \<notin> set line \<Longrightarrow>
   handleMCPResponse parse c line
     = (if js_trim line = [] then Some c else handle_line parse c line)"
  by (simp add: handleMCPResponse_def split_lines_no_break)

lemma handleMCPResponse_dropped:
  assumes "CHR 0x0A \<notin> set line" and "parse line = None"
  shows "handleMCPResponse parse c line = Some c"
  using assms by (simp add: handleMCPResponse_line handle_line_unparsed)

lemma handleMCPResponse_whole_line:
  "CHR 0x0A \<notin> set line \<Longrightarrow> js_trim line \<noteq> []
   \<Longrightarrow> handleMCPResponse parse c (line @ [CHR 0x0A]) = handle_line parse c line"
  by (simp add: handleMCPResponse_def split_lines_break_end)

lemma handle_lines_unparsed:
  "\<forall>l \<in> set ls. parse l = None \<Longrightarrow> handle_lines parse c ls = Some c"
  by (induction ls) (auto simp: handle_line_unparsed)

lemma handleMCPResponse_unparsed:
  "\<forall>l \<in> set (split_lines data). parse l = None \<Longrightarrow> handleMCPResponse parse c data = Some c"
  by (simp add: handleMCPResponse_def handle_lines_unparsed)

lemma handle_lines_total: "\<exists>c'. handle_lines parse c ls = Some c'"
proof (induction ls arbitrary: c)
  case Nil
  then show ?case by simp
next
  case (Cons l ls)
  obtain c1 where "handle_line parse c l = Some c1"
    using handle_line_total by blast
  with Cons[of c1] show ?case by simp
qed

lemma handleMCPResponse_total: "\<exists>c'. handleMCPResponse parse c data = Some c'"
  by (simp add: handleMCPResponse_def handle_lines_total)

subsection \<open>An armed timer belongs to an unsettled promise\<close>

lemma entry_timer:
  "timer (callers (entry_resolve h v c) ! i) =
     (if i = h \<and> h < length (callers c) then None else timer (callers c ! i))"
  "timer (callers (entry_reject h v c) ! i) =
     (if i = h \<and> h < length (callers c) then None else timer (callers c ! i))"
  by (simp_all add: entry_resolve_def entry_reject_def settle_def clearTimeout_def
        update_caller_nth)

lemma entry_promise_other:
  "i \<noteq> h \<Longrightarrow> promise (callers (entry_resolve h v c) ! i) = promise (callers c ! i)"
  "i \<noteq> h \<Longrightarrow> promise (callers (entry_reject h v c) ! i) = promise (callers c ! i)"
  by (simp_all add: entry_resolve_def entry_reject_def settle_def clearTimeout_def
        update_caller_nth)

lemma armed_entry:
  "armed_unsettled c \<Longrightarrow> armed_unsettled (entry_resolve h v c)"
  "armed_unsettled c \<Longrightarrow> armed_unsettled (entry_reject h v c)"
  unfolding armed_unsettled_def
  by (auto simp: entry_timer entry_promise_other split: if_splits)

lemma armed_pending_delete: "armed_unsettled c \<Longrightarrow> armed_unsettled (pending_delete v c)"
  by (simp add: armed_unsettled_def)

lemma armed_fulfill:
  "armed_unsettled c \<Longrightarrow> fulfill h response c = Some c' \<Longrightarrow> armed_unsettled c'"
  using fulfill_result[of h response c c'] armed_entry[of c h] by auto

lemma armed_handle_line:
  assumes "armed_unsettled c" and "handle_line parse c line = Some c'"
  shows "armed_unsettled c'"
proof -
  from handle_line_result[OF assms(2)] show ?thesis
  proof
    assume "c' = c"
    with assms show ?thesis by simp
  next
    assume "\<exists>response rid h. parse line = Some response \<and> js_get response ''id'' = Some rid
      \<and> pending_get c rid = Some h
      \<and> (fulfill h response (pending_delete rid c) = Some c' \<or> c' = pending_delete rid c)"
    then obtain response rid h where
      "fulfill h response (pending_delete rid c) = Some c' \<or> c' = pending_delete rid c"
      by blast
    with armed_pending_delete[OF assms(1), of rid] show ?thesis
      using armed_fulfill by blast
  qed
qed

lemma armed_handle_lines:
  "armed_unsettled c \<Longrightarrow> handle_lines parse c ls = Some c' \<Longrightarrow> armed_unsettled c'"
proof (induction ls arbitrary: c)
  case Nil
  then show ?case by simp
next
  case (Cons l ls)
  from Cons.prems(2) obtain c1 where 1: "handle_line parse c l = Some c1"
    and 2: "handle_lines parse c1 ls = Some c'"
    by (auto split: Option.bind_splits)
  from armed_handle_line[OF Cons.prems(1), of parse l c1] 1 have "armed_unsettled c1"
    by simp
  with Cons.IH 2 show ?case by blast
qed

lemma armed_handleMCPResponse:
  "armed_unsettled c \<Longrightarrow> handleMCPResponse parse c data = Some c' \<Longrightarrow> armed_unsettled c'"
  unfolding handleMCPResponse_def by (rule armed_handle_lines)

lemma armed_getNextId: "armed_unsettled c \<Longrightarrow> armed_unsettled (snd (getNextId c))"
  by (simp add: armed_unsettled_def getNextId_def Let_def)

lemma armed_sendMCPRequest:
  "armed_unsettled c \<Longrightarrow> sendMCPRequest c req = Some (h, c') \<Longrightarrow> armed_unsettled c'"
  by (auto simp: armed_unsettled_def sendMCPRequest_def nth_append split: if_splits)

lemma armed_callMCPTool: "armed_unsettled c \<Longrightarrow> armed_unsettled (snd (callMCPTool c n p))"
  using armed_getNextId[of c] armed_sendMCPRequest
  by (auto simp: callMCPTool_def split: prod.splits option.splits)

lemma armed_initialize: "armed_unsettled c \<Longrightarrow> armed_unsettled (snd (initialize c))"
  using armed_getNextId[of c] armed_sendMCPRequest
  by (auto simp: initialize_def split: prod.splits option.splits)

lemma on_timeout_timer:
  "timer (callers (on_timeout h c) ! i) =
     (if i = h \<and> h < length (callers c) then None else timer (callers c ! i))"
  by (auto simp: on_timeout_def settle_def update_caller_nth update_caller_def)

lemma on_timeout_promise_other:
  "i \<noteq> h \<Longrightarrow> promise (callers (on_timeout h c) ! i) = promise (callers c ! i)"
  by (auto simp: on_timeout_def settle_def update_caller_nth update_caller_def)

lemma on_timeout_length [simp]: "length (callers (on_timeout h c)) = length (callers c)"
  by (auto simp: on_timeout_def settle_def update_caller_def)

lemma armed_on_timeout: "armed_unsettled c \<Longrightarrow> armed_unsettled (on_timeout h c)"
  unfolding armed_unsettled_def
  by (auto simp: on_timeout_timer on_timeout_promise_other split: if_splits)

lemma armed_on_exit: "armed_unsettled c \<Longrightarrow> armed_unsettled (on_exit code c)"
  by (simp add: armed_unsettled_def on_exit_def)

lemma armed_exit_status:
  "armed_unsettled c \<Longrightarrow> armed_unsettled (c\<lparr>exit_status := x\<rparr>)"
  by (simp add: armed_unsettled_def)

lemma armed_step:
  assumes a: "armed_unsettled c"
  shows "armed_unsettled (step parse c e)"
proof (cases "exit_status c = None")
  case False
  with a show ?thesis by (simp add: step_def)
next
  case True
  show ?thesis
  proof (cases e)
    case (Call n p)
    with True armed_callMCPTool[OF a] show ?thesis by (simp add: step_def)
  next
    case Initialize
    with True armed_initialize[OF a] show ?thesis by (simp add: step_def)
  next
    case (Data chunk)
    obtain c' where c': "handleMCPResponse parse c chunk = Some c'"
      using handleMCPResponse_total by blast
    with True Data armed_handleMCPResponse[OF a c'] show ?thesis
      by (simp add: step_def)
  next
    case (Timer h)
    with True armed_on_timeout[OF a] show ?thesis by (simp add: step_def)
  next
    case (Exit code)
    with True armed_on_exit[OF a] show ?thesis by (simp add: step_def)
  next
    case ProcessError
    with True armed_exit_status[OF a] show ?thesis by (simp add: step_def)
  qed
qed

lemma run_snoc: "run parse c (es @ [e]) = step parse (run parse c es) e"
  by (simp add: run_def)

lemma armed_run: "armed_unsettled (run parse spawned es)"
proof (induction es rule: rev_induct)
  case Nil
  then show ?case by (simp add: run_def armed_unsettled_def spawned_def)
next
  case (snoc e es)
  then show ?case by (simp add: run_snoc armed_step)
qed

lemma on_timeout_rejects:
  assumes "h < length (callers c)" and "timer (callers c ! h) \<noteq> None"
    and "promise (callers c ! h) = None"
  shows "promise (callers (on_timeout h c) ! h) = Some Rejected_Timeout"
    and "pendingRequests (on_timeout h c) (call_id (callers c ! h)) = None"
    and "timer (callers (on_timeout h c) ! h) = None"
  using assms
  by (auto simp: on_timeout_def settle_def update_caller_def)

lemma sendMCPRequest_arms:
  assumes "mcpProcess c"
  shows "\<exists>c'. sendMCPRequest c req = Some (length (callers c), c')
     \<and> callers c' ! length (callers c)
         = \<lparr>call_id = req_id req, timer = Some 20000, promise = None\<rparr>
     \<and> pendingRequests c' (req_id req) = Some (length (callers c))"
  using assms by (simp add: sendMCPRequest_def)


subsection \<open>A session keeps the ids in order\<close>

lemma handle_line_frame:
  assumes "handle_line parse c line = Some c'"
  shows "requestId c' = requestId c \<and> stdin c' = stdin c \<and> mcpProcess c' = mcpProcess c"
proof -
  from handle_line_result[OF assms] show ?thesis
  proof
    assume "c' = c"
    then show ?thesis by simp
  next
    assume "\<exists>response rid h. parse line = Some response \<and> js_get response ''id'' = Some rid
      \<and> pending_get c rid = Some h
      \<and> (fulfill h response (pending_delete rid c) = Some c' \<or> c' = pending_delete rid c)"
    then obtain response rid h where
      "fulfill h response (pending_delete rid c) = Some c' \<or> c' = pending_delete rid c"
      by blast
    then show ?thesis
    proof
      assume f: "fulfill h response (pending_delete rid c) = Some c'"
      show ?thesis
        using fulfill_frame(1,3,4)[OF f] by simp
    next
      assume "c' = pending_delete rid c"
      then show ?thesis by simp
    qed
  qed
qed

lemma handle_lines_frame:
  "handle_lines parse c ls = Some c'
   \<Longrightarrow> requestId c' = requestId c \<and> stdin c' = stdin c \<and> mcpProcess c' = mcpProcess c"
proof (induction ls arbitrary: c)
  case Nil
  then show ?case by simp
next
  case (Cons l ls)
  from Cons.prems obtain c1 where 1: "handle_line parse c l = Some c1"
    and 2: "handle_lines parse c1 ls = Some c'"
    by (auto split: Option.bind_splits)
  from handle_line_frame[OF 1] Cons.IH[OF 2] show ?case by simp
qed

lemma handleMCPResponse_frame:
  "handleMCPResponse parse c data = Some c'
   \<Longrightarrow> requestId c' = requestId c \<and> stdin c' = stdin c \<and> mcpProcess c' = mcpProcess c"
  unfolding handleMCPResponse_def by (rule handle_lines_frame)

lemma on_timeout_frame:
  "requestId (on_timeout h c) = requestId c \<and> stdin (on_timeout h c) = stdin c
   \<and> mcpProcess (on_timeout h c) = mcpProcess c"
  by (simp add: on_timeout_def settle_def)

lemma on_exit_frame:
  "requestId (on_exit code c) = requestId c \<and> stdin (on_exit code c) = stdin c
   \<and> mcpProcess (on_exit code c) = mcpProcess c"
  by (simp add: on_exit_def)

lemma callMCPTool_state:
  "mcpProcess c \<Longrightarrow>
   requestId (snd (callMCPTool c n p)) = increment (requestId c)
   \<and> mcpProcess (snd (callMCPTool c n p))
   \<and> map req_id (stdin (snd (callMCPTool c n p))) = map req_id (stdin c) @ [increment (requestId c)]"
  by (simp add: callMCPTool_def getNextId_def Let_def sendMCPRequest_def)

lemma initialize_state:
  "mcpProcess c \<Longrightarrow>
   requestId (snd (initialize c)) = increment (requestId c)
   \<and> mcpProcess (snd (initialize c))
   \<and> map req_id (stdin (snd (initialize c))) = map req_id (stdin c) @ [increment (requestId c)]"
  by (simp add: initialize_def getNextId_def Let_def sendMCPRequest_def)

lemma ids_in_order_extend:
  assumes "ids_in_order c" and "mcpProcess c'"
    and "requestId c' = increment (requestId c)"
    and "map req_id (stdin c') = map req_id (stdin c) @ [increment (requestId c)]"
    and "length (stdin c') \<le> 2 ^ 53"
  shows "ids_in_order c'"
proof -
  let ?n = "length (stdin c)"
  have "length (map req_id (stdin c')) = length (map req_id (stdin c) @ [increment (requestId c)])"
    using assms(4) by (rule arg_cong)
  then have len: "length (stdin c') = Suc ?n"
    by simp
  with assms(5) have "Suc ?n \<le> 2 ^ 53"
    by (simp only:)
  then have "int (Suc ?n) \<le> int (2 ^ 53)"
    by (simp only: of_nat_le_iff)
  then have "int ?n < 2 ^ 53"
    by simp
  moreover from assms(1) have r: "requestId c = int ?n"
    and m: "map req_id (stdin c) = map int [1..<Suc ?n]"
    by (simp_all only: ids_in_order_def)
  ultimately have inc: "increment (requestId c) = int (Suc ?n)"
    by (simp add: increment_def)
  have "map req_id (stdin c') = map int [1..<Suc ?n] @ [int (Suc ?n)]"
    using assms(4) by (simp only: m inc)
  also have "\<dots> = map int ([1..<Suc ?n] @ [Suc ?n])"
    by simp
  also have "[1..<Suc ?n] @ [Suc ?n] = [1..<Suc (Suc ?n)]"
    by simp
  finally have "map req_id (stdin c') = map int [1..<Suc (length (stdin c'))]"
    by (simp only: len)
  moreover have "requestId c' = int (length (stdin c'))"
    by (simp only: assms(3) inc len)
  ultimately show ?thesis
    using assms(2) by (simp only: ids_in_order_def simp_thms)
qed


lemma step_ids_in_order:
  assumes i: "ids_in_order c" and b: "length (stdin (step parse c e)) \<le> 2 ^ 53"
  shows "ids_in_order (step parse c e)"
proof (cases "exit_status c = None")
  case False
  with i show ?thesis by (simp add: step_def)
next
  case True
  from i have m: "mcpProcess c" by (simp add: ids_in_order_def)
  show ?thesis
  proof (cases e)
    case (Call n p)
    let ?c' = "snd (callMCPTool c n p)"
    from True Call have s: "step parse c e = ?c'" by (simp add: step_def)
    have st: "requestId ?c' = increment (requestId c)" "mcpProcess ?c'"
      "map req_id (stdin ?c') = map req_id (stdin c) @ [increment (requestId c)]"
      using callMCPTool_state[OF m, of n p] by blast+
    from b have b': "length (stdin ?c') \<le> 2 ^ 53" by (simp only: s)
    have "ids_in_order ?c'"
      using i st(2) st(1) st(3) b' by (rule ids_in_order_extend)
    then show ?thesis by (simp only: s)
  next
    case Initialize
    let ?c' = "snd (initialize c)"
    from True Initialize have s: "step parse c e = ?c'" by (simp add: step_def)
    have st: "requestId ?c' = increment (requestId c)" "mcpProcess ?c'"
      "map req_id (stdin ?c') = map req_id (stdin c) @ [increment (requestId c)]"
      using initialize_state[OF m] by blast+
    from b have b': "length (stdin ?c') \<le> 2 ^ 53" by (simp only: s)
    have "ids_in_order ?c'"
      using i st(2) st(1) st(3) b' by (rule ids_in_order_extend)
    then show ?thesis by (simp only: s)
  next
    case (Data chunk)
    obtain c' where c': "handleMCPResponse parse c chunk = Some c'"
      using handleMCPResponse_total by blast
    with True Data handleMCPResponse_frame[OF c'] i show ?thesis
      by (simp add: step_def ids_in_order_def)
  next
    case (Timer h)
    with True on_timeout_frame[of h c] i show ?thesis
      by (simp add: step_def ids_in_order_def)
  next
    case (Exit code)
    with True on_exit_frame[of code c] i show ?thesis
      by (simp add: step_def ids_in_order_def)
  next
    case ProcessError
    with True i show ?thesis by (simp add: step_def ids_in_order_def)
  qed
qed

lemma callMCPTool_stdin_grows: "length (stdin c) \<le> length (stdin (snd (callMCPTool c n p)))"
  by (cases "mcpProcess c") (simp_all add: callMCPTool_def getNextId_def Let_def sendMCPRequest_def)

lemma initialize_stdin_grows: "length (stdin c) \<le> length (stdin (snd (initialize c)))"
  by (cases "mcpProcess c") (simp_all add: initialize_def getNextId_def Let_def sendMCPRequest_def)

lemma step_stdin_grows: "length (stdin c) \<le> length (stdin (step parse c e))"
proof (cases "exit_status c = None")
  case False
  then show ?thesis by (simp add: step_def)
next
  case True
  show ?thesis
  proof (cases e)
    case (Call n p)
    with True callMCPTool_stdin_grows[of c n p] show ?thesis by (simp add: step_def)
  next
    case Initialize
    with True initialize_stdin_grows[of c] show ?thesis by (simp add: step_def)
  next
    case (Data chunk)
    obtain c' where c': "handleMCPResponse parse c chunk = Some c'"
      using handleMCPResponse_total by blast
    with True Data handleMCPResponse_frame[OF c'] show ?thesis
      by (simp add: step_def)
  next
    case (Timer h)
    with True on_timeout_frame[of h c] show ?thesis by (simp add: step_def)
  next
    case (Exit code)
    with True on_exit_frame[of code c] show ?thesis by (simp add: step_def)
  next
    case ProcessError
    with True show ?thesis by (simp add: step_def)
  qed
qed

lemma run_ids_in_order:
  "length (stdin (run parse spawned es)) \<le> 2 ^ 53 \<Longrightarrow> ids_in_order (run parse spawned es)"
proof (induction es rule: rev_induct)
  case Nil
  then show ?case by (simp add: run_def ids_in_order_def spawned_def)
next
  case (snoc e es)
  let ?c = "run parse spawned es"
  have s: "run parse spawned (es @ [e]) = step parse ?c e"
    by (rule run_snoc)
  have "length (stdin ?c) \<le> length (stdin (step parse ?c e))"
    by (rule step_stdin_grows)
  also have "\<dots> \<le> 2 ^ 53"
    using snoc.prems by (simp only: s)
  finally have "ids_in_order ?c"
    by (rule snoc.IH)
  moreover have "length (stdin (step parse ?c e)) \<le> 2 ^ 53"
    using snoc.prems by (simp only: s)
  ultimately have "ids_in_order (step parse ?c e)"
    by (rule step_ids_in_order)
  then show ?case by (simp only: s)
qed

lemma ids_list_properties:
  "distinct (map int [1..<Suc n]) \<and> sorted_wrt (<) (map int [1..<Suc n])
   \<and> (\<forall>k \<in> set (map int [1..<Suc n]). 0 < k)"
proof (intro conjI)
  show "distinct (map int [1..<Suc n])"
    by (simp add: distinct_map inj_on_def del: upt_Suc)
  show "sorted_wrt (<) (map int [1..<Suc n])"
    by (simp add: sorted_wrt_map del: upt_Suc)
  show "\<forall>k \<in> set (map int [1..<Suc n]). 0 < k"
    by (auto simp del: upt_Suc)
qed

subsection \<open>A pending entry has an armed timer\<close>

lemma entry_call_id:
  "call_id (callers (entry_resolve h v c) ! i) = call_id (callers c ! i)"
  "call_id (callers (entry_reject h v c) ! i) = call_id (callers c ! i)"
  by (simp_all add: entry_resolve_def entry_reject_def settle_def clearTimeout_def
        update_caller_nth)

lemma entries_armed_entry:
  assumes "entries_armed c" and "pending_get c rid = Some h"
  shows "entries_armed (entry_resolve h v (pending_delete rid c))"
    and "entries_armed (entry_reject h v (pending_delete rid c))"
proof -
  from assms(2) obtain k where k: "pending_key rid = Some k" "pendingRequests c k = Some h"
    by (auto simp: pending_get_def split: option.splits)
  with assms(1) have hk: "call_id (callers c ! h) = k"
    by (simp add: entries_armed_def)
  have other: "h' \<noteq> h" if "pendingRequests c k' = Some h'" "k' \<noteq> k" for k' h'
    using assms(1) that hk by (auto simp: entries_armed_def)
  show "entries_armed (entry_resolve h v (pending_delete rid c))"
    unfolding entries_armed_def
    using assms(1) k other
    by (auto simp: entries_armed_def pending_delete_map entry_call_id entry_timer
          split: if_splits)
  show "entries_armed (entry_reject h v (pending_delete rid c))"
    unfolding entries_armed_def
    using assms(1) k other
    by (auto simp: entries_armed_def pending_delete_map entry_call_id entry_timer
          split: if_splits)
qed

lemma entries_armed_fulfill:
  assumes "entries_armed c" and "pending_get c rid = Some h"
    and "fulfill h response (pending_delete rid c) = Some c'"
  shows "entries_armed c'"
  using fulfill_result[OF assms(3)] entries_armed_entry[OF assms(1,2)]
  by auto

lemma entries_armed_pending_delete: "entries_armed c \<Longrightarrow> entries_armed (pending_delete v c)"
  by (simp add: entries_armed_def pending_delete_map)

lemma entries_armed_handle_line:
  assumes "entries_armed c" and "handle_line parse c line = Some c'"
  shows "entries_armed c'"
proof -
  from handle_line_result[OF assms(2)] show ?thesis
  proof
    assume "c' = c"
    with assms show ?thesis by simp
  next
    assume "\<exists>response rid h. parse line = Some response \<and> js_get response ''id'' = Some rid
      \<and> pending_get c rid = Some h
      \<and> (fulfill h response (pending_delete rid c) = Some c' \<or> c' = pending_delete rid c)"
    then obtain response rid h where p: "pending_get c rid = Some h"
      and d: "fulfill h response (pending_delete rid c) = Some c' \<or> c' = pending_delete rid c"
      by blast
    from d show ?thesis
    proof
      assume "fulfill h response (pending_delete rid c) = Some c'"
      with assms(1) p show ?thesis
        by (rule entries_armed_fulfill)
    next
      assume "c' = pending_delete rid c"
      with assms(1) show ?thesis
        by (simp add: entries_armed_pending_delete)
    qed
  qed
qed

lemma entries_armed_handle_lines:
  "entries_armed c \<Longrightarrow> handle_lines parse c ls = Some c' \<Longrightarrow> entries_armed c'"
proof (induction ls arbitrary: c)
  case Nil
  then show ?case by simp
next
  case (Cons l ls)
  from Cons.prems(2) obtain c1 where 1: "handle_line parse c l = Some c1"
    and 2: "handle_lines parse c1 ls = Some c'"
    by (auto split: Option.bind_splits)
  from entries_armed_handle_line[OF Cons.prems(1), of parse l c1] 1 have "entries_armed c1"
    by simp
  with Cons.IH 2 show ?case by blast
qed

lemma entries_armed_handleMCPResponse:
  "entries_armed c \<Longrightarrow> handleMCPResponse parse c data = Some c' \<Longrightarrow> entries_armed c'"
  unfolding handleMCPResponse_def by (rule entries_armed_handle_lines)

lemma entries_armed_getNextId: "entries_armed c \<Longrightarrow> entries_armed (snd (getNextId c))"
  by (simp add: entries_armed_def getNextId_def Let_def)

lemma entries_armed_sendMCPRequest:
  assumes "entries_armed c" and "sendMCPRequest c req = Some (h, c')"
  shows "entries_armed c'"
  unfolding entries_armed_def
proof (intro allI impI)
  fix k i
  assume p: "pendingRequests c' k = Some i"
  from assms(2) have c': "callers c' = callers c
        @ [\<lparr>call_id = req_id req, timer = Some 20000, promise = None\<rparr>]"
    "pendingRequests c' = (pendingRequests c)(req_id req := Some (length (callers c)))"
    by (auto simp: sendMCPRequest_def split: if_splits)
  show "i < length (callers c') \<and> call_id (callers c' ! i) = k
      \<and> timer (callers c' ! i) = Some 20000"
  proof (cases "k = req_id req")
    case True
    with p c' have "i = length (callers c)" by simp
    with True c' show ?thesis by simp
  next
    case False
    with p c' have "pendingRequests c k = Some i" by simp
    with assms(1) have "i < length (callers c)" "call_id (callers c ! i) = k"
      "timer (callers c ! i) = Some 20000"
      by (auto simp: entries_armed_def)
    with c' show ?thesis by (simp add: nth_append)
  qed
qed

lemma entries_armed_callMCPTool: "entries_armed c \<Longrightarrow> entries_armed (snd (callMCPTool c n p))"
  using entries_armed_getNextId[of c] entries_armed_sendMCPRequest
  by (auto simp: callMCPTool_def split: prod.splits option.splits)

lemma entries_armed_initialize: "entries_armed c \<Longrightarrow> entries_armed (snd (initialize c))"
  using entries_armed_getNextId[of c] entries_armed_sendMCPRequest
  by (auto simp: initialize_def split: prod.splits option.splits)

lemma on_timeout_call_id:
  "call_id (callers (on_timeout h c) ! i) = call_id (callers c ! i)"
  by (auto simp: on_timeout_def settle_def update_caller_def nth_list_update)

lemma on_timeout_pending:
  "pendingRequests (on_timeout h c) k =
     (if h < length (callers c) \<and> timer (callers c ! h) \<noteq> None \<and> k = call_id (callers c ! h)
      then None else pendingRequests c k)"
  by (auto simp: on_timeout_def settle_def update_caller_def)

lemma entries_armed_on_timeout:
  assumes "entries_armed c"
  shows "entries_armed (on_timeout h c)"
  unfolding entries_armed_def
proof (intro allI impI)
  fix k h'
  assume p: "pendingRequests (on_timeout h c) k = Some h'"
  then have q: "pendingRequests c k = Some h'"
    by (auto simp: on_timeout_pending split: if_splits)
  with assms have a: "h' < length (callers c)" "call_id (callers c ! h') = k"
    "timer (callers c ! h') = Some 20000"
    by (auto simp: entries_armed_def)
  have "h' \<noteq> h \<or> \<not> (h < length (callers c) \<and> timer (callers c ! h) \<noteq> None)"
    using p a by (auto simp: on_timeout_pending split: if_splits)
  then have "timer (callers (on_timeout h c) ! h') = timer (callers c ! h')"
    using a by (auto simp: on_timeout_timer)
  with a show "h' < length (callers (on_timeout h c))
      \<and> call_id (callers (on_timeout h c) ! h') = k
      \<and> timer (callers (on_timeout h c) ! h') = Some 20000"
    by (simp add: on_timeout_call_id)
qed

lemma entries_armed_on_exit: "entries_armed c \<Longrightarrow> entries_armed (on_exit code c)"
  by (simp add: entries_armed_def on_exit_def)

lemma entries_armed_exit_status:
  "entries_armed c \<Longrightarrow> entries_armed (c\<lparr>exit_status := x\<rparr>)"
  by (simp add: entries_armed_def)

lemma entries_armed_step:
  assumes a: "entries_armed c"
  shows "entries_armed (step parse c e)"
proof (cases "exit_status c = None")
  case False
  with a show ?thesis by (simp add: step_def)
next
  case True
  show ?thesis
  proof (cases e)
    case (Call n p)
    with True entries_armed_callMCPTool[OF a] show ?thesis by (simp add: step_def)
  next
    case Initialize
    with True entries_armed_initialize[OF a] show ?thesis by (simp add: step_def)
  next
    case (Data chunk)
    obtain c' where c': "handleMCPResponse parse c chunk = Some c'"
      using handleMCPResponse_total by blast
    with True Data entries_armed_handleMCPResponse[OF a c'] show ?thesis
      by (simp add: step_def)
  next
    case (Timer h)
    with True entries_armed_on_timeout[OF a] show ?thesis by (simp add: step_def)
  next
    case (Exit code)
    with True entries_armed_on_exit[OF a] show ?thesis by (simp add: step_def)
  next
    case ProcessError
    with True entries_armed_exit_status[OF a] show ?thesis by (simp add: step_def)
  qed
qed

lemma entries_armed_run: "entries_armed (run parse spawned es)"
proof (induction es rule: rev_induct)
  case Nil
  then show ?case by (simp add: run_def entries_armed_def spawned_def)
next
  case (snoc e es)
  then show ?case by (simp add: run_snoc entries_armed_step)
qed

subsection \<open>Chunks, exits, ids, duplicates and timeouts\<close>

lemma example_client_state:
  "pendingRequests example_client 1 = Some 0"
  "callers example_client = [\<lparr>call_id = 1, timer = Some 20000, promise = None\<rparr>]"
  "exit_status example_client = None"
  "mcpProcess example_client"
  by (simp_all add: example_client_def callMCPTool_def getNextId_def increment_def Let_def
        sendMCPRequest_def spawned_def)

lemma example_client_run:
  "example_client = run parse spawned [Call ''get_page_titles_only'' (JObj [(''limit'', JNum (Finite 3))])]"
  by (simp add: example_client_def run_def step_def spawned_def)

lemma pending_key_int [simp]: "pending_key (JNum (Finite (of_int k))) = Some k"
  by (simp add: pending_key_def)


lemma handleMCPResponse_unparsed_lines:
  "\<forall>l \<in> set (split_lines data). js_trim l \<noteq> [] \<longrightarrow> parse l = None
   \<Longrightarrow> handleMCPResponse parse c data = Some c"
  by (simp add: handleMCPResponse_def handle_lines_unparsed)

lemma handleMCPResponse_fragments:
  assumes "CHR 0x0A \<notin> set a" and "CHR 0x0A \<notin> set b"
    and "parse a = None" and "parse b = None"
  shows "handleMCPResponse parse c a = Some c"
    and "handleMCPResponse parse c (b @ [CHR 0x0A]) = Some c"
  using assms
  by (simp_all add: handleMCPResponse_unparsed_lines split_lines_no_break split_lines_break_end)

text \<open>
  Claim C1, as the code has it. The stream handler keeps no buffer: a chunk is handled by
  itself, as its lines in sequence (a line break ends a line, the last line needs none),
  and a line that is not blank by itself. So a response record that lies whole within a
  chunk, wherever in it, is handled there as one response, and removes exactly the
  pending entry of its id. The part of a record that ends one chunk, and the part that
  begins the next, are lines of their own: a part that does not parse (as for a JSON
  object cut mid-record) is dropped, and its chunk is handled as if the part were not
  there. Of a record split so that neither part parses, nothing is left: no pending
  entry is fulfilled.
\<close>

theorem chunks_handled_separately:
  assumes "CHR 0x0A \<notin> set line"
  shows "handleMCPResponse parse c (d1 @ CHR 0x0A # d2)
           = Option.bind (handleMCPResponse parse c d1) (\<lambda>c1. handleMCPResponse parse c1 d2)
       \<and> handleMCPResponse parse c line
           = (if js_trim line = [] then Some c else handle_line parse c line)
       \<and> handleMCPResponse parse c (d1 @ CHR 0x0A # line @ CHR 0x0A # d2)
           = Option.bind (handleMCPResponse parse c d1)
               (\<lambda>c1. Option.bind (handleMCPResponse parse c1 line)
                  (\<lambda>c2. handleMCPResponse parse c2 d2))
       \<and> (js_trim line \<noteq> [] \<and> parse line = Some response
            \<and> js_get response ''id'' = Some rid \<and> pending_get c rid = Some h \<longrightarrow>
            (\<exists>c'. handleMCPResponse parse c line = Some c'
                  \<and> pendingRequests c' = pendingRequests (pending_delete rid c)))
       \<and> (parse line = None \<longrightarrow>
            handleMCPResponse parse c (d1 @ CHR 0x0A # line) = handleMCPResponse parse c d1
            \<and> handleMCPResponse parse c (line @ CHR 0x0A # d2) = handleMCPResponse parse c d2)"
proof (intro conjI impI)
  show "handleMCPResponse parse c (d1 @ CHR 0x0A # d2)
           = Option.bind (handleMCPResponse parse c d1) (\<lambda>c1. handleMCPResponse parse c1 d2)"
    by (rule handleMCPResponse_append)
  show l: "handleMCPResponse parse c line
           = (if js_trim line = [] then Some c else handle_line parse c line)"
    using assms by (rule handleMCPResponse_line)
  have "handleMCPResponse parse c (d1 @ CHR 0x0A # (line @ CHR 0x0A # d2))
           = Option.bind (handleMCPResponse parse c d1)
               (\<lambda>c1. handleMCPResponse parse c1 (line @ CHR 0x0A # d2))"
    by (rule handleMCPResponse_append)
  then show "handleMCPResponse parse c (d1 @ CHR 0x0A # line @ CHR 0x0A # d2)
           = Option.bind (handleMCPResponse parse c d1)
               (\<lambda>c1. Option.bind (handleMCPResponse parse c1 line)
                  (\<lambda>c2. handleMCPResponse parse c2 d2))"
    by (simp only: handleMCPResponse_append)
  show "\<exists>c'. handleMCPResponse parse c line = Some c'
           \<and> pendingRequests c' = pendingRequests (pending_delete rid c)"
    if *: "js_trim line \<noteq> [] \<and> parse line = Some response
           \<and> js_get response ''id'' = Some rid \<and> pending_get c rid = Some h"
  proof -
    obtain c' where c': "handle_line parse c line = Some c'"
      using handle_line_total by blast
    have "pendingRequests c' = pendingRequests (pending_delete rid c)"
      using handle_line_removes(2)[of parse line response rid c h c'] * c' by simp
    with l c' * show ?thesis by simp
  qed
  show "handleMCPResponse parse c (d1 @ CHR 0x0A # line) = handleMCPResponse parse c d1"
    if "parse line = None"
  proof -
    have "handleMCPResponse parse c1 line = Some c1" for c1
      using assms that by (rule handleMCPResponse_dropped)
    then show ?thesis
      by (simp add: handleMCPResponse_append)
  qed
  show "handleMCPResponse parse c (line @ CHR 0x0A # d2) = handleMCPResponse parse c d2"
    if "parse line = None"
  proof -
    have "handleMCPResponse parse c line = Some c"
      using assms that by (rule handleMCPResponse_dropped)
    then show ?thesis
      by (simp add: handleMCPResponse_append)
  qed
qed

theorem chunks_handled_separately_witness:
  \<open>handleMCPResponse JSON_parse example_client
      (''Notion MCP Server started'' @ CHR 0x0A # ''{"jsonrpc":"2.0","id":1,"result":{}}''
         @ CHR 0x0A # ''{"jsonrpc":"2.0","id":7,"result":{}}'')
     = Option.bind (handleMCPResponse JSON_parse example_client ''Notion MCP Server started'')
         (\<lambda>c1. Option.bind
            (handleMCPResponse JSON_parse c1 ''{"jsonrpc":"2.0","id":1,"result":{}}'')
            (\<lambda>c2. handleMCPResponse JSON_parse c2 ''{"jsonrpc":"2.0","id":7,"result":{}}''))
   \<and> (\<exists>c'. handleMCPResponse JSON_parse example_client ''{"jsonrpc":"2.0","id":1,"result":{}}''
             = Some c'
           \<and> pendingRequests c' = pendingRequests (pending_delete (JNum (Finite 1)) example_client))
   \<and> handleMCPResponse JSON_parse example_client
        (''Notion MCP Server started'' @ CHR 0x0A # ''{"jsonrpc":"2.0","id":1,"res'')
       = handleMCPResponse JSON_parse example_client ''Notion MCP Server started''
   \<and> handleMCPResponse JSON_parse example_client
        (''ult":{}}'' @ CHR 0x0A # ''{"jsonrpc":"2.0","id":7,"result":{}}'')
       = handleMCPResponse JSON_parse example_client ''{"jsonrpc":"2.0","id":7,"result":{}}''\<close>
proof -
  let ?log = "''Notion MCP Server started''"
  let ?l1 = \<open>''{"jsonrpc":"2.0","id":1,"result":{}}''\<close>
  let ?l7 = \<open>''{"jsonrpc":"2.0","id":7,"result":{}}''\<close>
  let ?a = \<open>''{"jsonrpc":"2.0","id":1,"res''\<close> and ?b = \<open>''ult":{}}''\<close>
  let ?r = "JObj [(''jsonrpc'', JStr ''2.0''), (''id'', JNum (Finite 1)), (''result'', JObj [])]"
  have n: "CHR 0x0A \<notin> set ?l1" "CHR 0x0A \<notin> set ?a" "CHR 0x0A \<notin> set ?b"
    by simp_all
  have t: "js_trim ?l1 \<noteq> []"
    by code_simp
  have p: "JSON_parse ?l1 = Some ?r" "JSON_parse ?a = None" "JSON_parse ?b = None"
    by code_simp+
  have g: "js_get ?r ''id'' = Some (JNum (Finite 1))"
    by simp
  have k: "pending_get example_client (JNum (Finite 1)) = Some 0"
    using pending_key_int[of 1] by (simp add: pending_get_def example_client_state)
  note T1 = chunks_handled_separately[OF n(1), of JSON_parse example_client ?log ?l7 ?r
      "JNum (Finite 1)" 0]
  note Ta = chunks_handled_separately[OF n(2), of JSON_parse example_client ?log ?l7]
  note Tb = chunks_handled_separately[OF n(3), of JSON_parse example_client ?log ?l7]
  from T1 have 1: "handleMCPResponse JSON_parse example_client (?log @ CHR 0x0A # ?l1 @ CHR 0x0A # ?l7)
     = Option.bind (handleMCPResponse JSON_parse example_client ?log)
         (\<lambda>c1. Option.bind (handleMCPResponse JSON_parse c1 ?l1)
            (\<lambda>c2. handleMCPResponse JSON_parse c2 ?l7))"
    by blast
  from T1 t p(1) g k have 2: "\<exists>c'. handleMCPResponse JSON_parse example_client ?l1 = Some c'
           \<and> pendingRequests c' = pendingRequests (pending_delete (JNum (Finite 1)) example_client)"
    by blast
  from Ta p(2) have 3: "handleMCPResponse JSON_parse example_client (?log @ CHR 0x0A # ?a)
       = handleMCPResponse JSON_parse example_client ?log"
    by blast
  from Tb p(3) have 4: "handleMCPResponse JSON_parse example_client (?b @ CHR 0x0A # ?l7)
       = handleMCPResponse JSON_parse example_client ?l7"
    by blast
  from 1 2 3 4 show ?thesis by blast
qed

text \<open>
  Claim C1 as stated fails: a response record for the pending id 1, cut after its 28th
  byte, leaves the client as it was after both chunks; the entry is still pending and
  the caller's promise is unsettled.
\<close>

theorem split_record_fulfills_nothing:
  \<open>handleMCPResponse JSON_parse example_client ''{"jsonrpc":"2.0","id":1,"res''
       = Some example_client
   \<and> handleMCPResponse JSON_parse example_client (''ult":{}}'' @ [CHR 0x0A])
       = Some example_client
   \<and> pendingRequests example_client 1 = Some 0
   \<and> promise (callers example_client ! 0) = None\<close>
proof -
  let ?a = \<open>''{"jsonrpc":"2.0","id":1,"res''\<close> and ?b = \<open>''ult":{}}''\<close>
  have n: "CHR 0x0A \<notin> set ?a" "CHR 0x0A \<notin> set ?b"
    by simp_all
  have p: "JSON_parse ?a = None" "JSON_parse ?b = None"
    by code_simp+
  from handleMCPResponse_fragments[OF n p, of example_client] example_client_state
  show ?thesis by simp
qed


text \<open>
  Claim C2, as the code has it. The handler of the subprocess's exit rejects and removes
  no pending entry. On exit code 0 it does nothing: the client is unchanged, every entry
  stays pending, and a caller is rejected only when its own timer fires. On any other
  code (or a signal) it ends the client process with status 1.
\<close>

theorem exit_leaves_entries_pending:
  "pendingRequests (on_exit code c) = pendingRequests c
   \<and> callers (on_exit code c) = callers c
   \<and> (code = Some 0 \<longrightarrow> on_exit code c = c)
   \<and> (code \<noteq> Some 0 \<longrightarrow> exit_status (on_exit code c) = Some 1)
   \<and> (code = Some 0 \<and> h < length (callers c) \<and> timer (callers c ! h) \<noteq> None
        \<and> promise (callers c ! h) = None \<longrightarrow>
        promise (callers (on_timeout h (on_exit code c)) ! h) = Some Rejected_Timeout)"
  using on_timeout_rejects(1)[of h c]
  by (simp add: on_exit_def)

theorem exit_leaves_entries_pending_witness:
  "on_exit (Some 0) example_client = example_client
   \<and> exit_status (on_exit (Some 1) example_client) = Some 1
   \<and> pendingRequests (on_exit (Some 1) example_client) 1 = Some 0
   \<and> promise (callers (on_timeout 0 (on_exit (Some 0) example_client)) ! 0)
       = Some Rejected_Timeout"
proof -
  have h: "Some (0::int) = Some 0 \<and> 0 < length (callers example_client)
      \<and> timer (callers example_client ! 0) \<noteq> None
      \<and> promise (callers example_client ! 0) = None"
    by (simp add: example_client_state)
  have n: "Some (1::int) \<noteq> Some 0"
    by simp
  have p: "pendingRequests example_client 1 = Some 0"
    by (simp add: example_client_state)
  from exit_leaves_entries_pending[of "Some 0" example_client 0] h
  have "on_exit (Some 0) example_client = example_client"
    and "promise (callers (on_timeout 0 (on_exit (Some 0) example_client)) ! 0)
       = Some Rejected_Timeout"
    by blast+
  moreover from exit_leaves_entries_pending[of "Some 1" example_client 0] n
  have "exit_status (on_exit (Some 1) example_client) = Some 1"
    and "pendingRequests (on_exit (Some 1) example_client) = pendingRequests example_client"
    by blast+
  ultimately show ?thesis
    using p by (simp only: simp_thms)
qed

text \<open>
  Claim C2 as stated fails: when the subprocess exits with code 0 while the request with
  id 1 is pending, the entry stays in the map and the caller's promise stays unsettled,
  its timer still armed.
\<close>

theorem exit_zero_rejects_nothing:
  "on_exit (Some 0) example_client = example_client
   \<and> pendingRequests (on_exit (Some 0) example_client) 1 = Some 0
   \<and> promise (callers (on_exit (Some 0) example_client) ! 0) = None
   \<and> timer (callers (on_exit (Some 0) example_client) ! 0) = Some 20000"
  by (simp add: on_exit_def example_client_state)

text \<open>
  Claim C3, as the code has it. For every sequence of N calls of the id allocator with
  N at most \<open>2^53\<close>, the ids are 1, 2, ..., N: pairwise distinct, strictly increasing,
  all greater than zero. Nothing else in a session changes the counter: whatever events
  a session consists of, as long as it has written at most \<open>2^53\<close> requests, their ids
  are 1, 2, ... in the order written.
\<close>

theorem ids_distinct_increasing:
  "(int n \<le> 2 ^ 53 \<longrightarrow>
      next_ids n spawned = map int [1..<Suc n]
      \<and> distinct (next_ids n spawned)
      \<and> sorted_wrt (<) (next_ids n spawned)
      \<and> (\<forall>k \<in> set (next_ids n spawned). 0 < k))
   \<and> (length (stdin (run parse spawned es)) \<le> 2 ^ 53 \<longrightarrow>
      map req_id (stdin (run parse spawned es))
        = map int [1..<Suc (length (stdin (run parse spawned es)))])"
proof (intro conjI impI)
  assume n: "int n \<le> 2 ^ 53"
  show e: "next_ids n spawned = map int [1..<Suc n]"
    using n by (rule next_ids_spawned)
  show "distinct (next_ids n spawned)" "sorted_wrt (<) (next_ids n spawned)"
    "\<forall>k \<in> set (next_ids n spawned). 0 < k"
    using ids_list_properties[of n] unfolding e by blast+
next
  assume "length (stdin (run parse spawned es)) \<le> 2 ^ 53"
  then have "ids_in_order (run parse spawned es)"
    by (rule run_ids_in_order)
  then show "map req_id (stdin (run parse spawned es))
        = map int [1..<Suc (length (stdin (run parse spawned es)))]"
    by (simp only: ids_in_order_def)
qed

lemma run_example:
  "stdin (run parse spawned [Initialize, Call ''list_all_pages'' (JObj []), Timer 0,
       Call ''search_notion'' (JObj [(''query'', JStr ''notes'')])])
   = [\<lparr>req_id = 1, req_method = ''initialize'', req_params = initialize_params\<rparr>,
      \<lparr>req_id = 2, req_method = ''tools/call'',
       req_params = JObj [(''name'', JStr ''list_all_pages''), (''arguments'', JObj [])]\<rparr>,
      \<lparr>req_id = 3, req_method = ''tools/call'',
       req_params = JObj [(''name'', JStr ''search_notion''),
                          (''arguments'', JObj [(''query'', JStr ''notes'')])]\<rparr>]"
  by (simp add: run_def step_def spawned_def initialize_def callMCPTool_def getNextId_def
        increment_def Let_def sendMCPRequest_def on_timeout_def settle_def update_caller_def)

theorem ids_distinct_increasing_witness:
  "next_ids 3 spawned = [1, 2, 3]
   \<and> distinct (next_ids 3 spawned)
   \<and> sorted_wrt (<) (next_ids 3 spawned)
   \<and> map req_id (stdin (run JSON_parse spawned
        [Initialize, Call ''list_all_pages'' (JObj []), Timer 0,
         Call ''search_notion'' (JObj [(''query'', JStr ''notes'')])])) = [1, 2, 3]"
proof -
  let ?es = "[Initialize, Call ''list_all_pages'' (JObj []), Timer 0,
         Call ''search_notion'' (JObj [(''query'', JStr ''notes'')])]"
  have l: "length (stdin (run JSON_parse spawned ?es)) = 3"
    by (simp add: run_example)
  have u: "map int [1..<Suc 3] = [1, 2, 3]"
    by (simp add: upt_conv_Cons)
  have a: "int 3 \<le> 2 ^ 53" "(3::nat) \<le> 2 ^ 53"
    by simp_all
  note T = ids_distinct_increasing[of 3 JSON_parse ?es, unfolded l u]
  from T a show ?thesis by blast
qed

text \<open>
  Claim C3 as stated fails for longer sequences: the counter is a binary64 number, and of
  \<open>2^53 + 1\<close> allocated ids the last two are both \<open>2^53\<close>.
\<close>

theorem ids_repeat_after_2_53: "\<not> distinct (next_ids (2 ^ 53 + 1) spawned)"
  by (rule ids_repeat) simp


lemma fulfill_thrown:
  assumes "fulfill h response c = None" and "js_get response ''id'' = Some rid"
  shows "\<exists>err message. js_get response ''error'' = Some err \<and> truthy err
           \<and> js_get err ''message'' = Some message \<and> \<not> convertible message"
proof -
  from assms(2) obtain err res where e: "js_get response ''error'' = Some err"
    and r: "js_get response ''result'' = Some res"
    by (cases response) auto
  show ?thesis
  proof (cases "truthy err")
    case True
    then obtain m where m: "js_get err ''message'' = Some m"
      by (cases err) auto
    with assms(1) e True have "\<not> convertible m"
      by (auto simp: fulfill_def new_Error_def split: if_splits)
    with e True m show ?thesis by blast
  next
    case False
    with assms(1) e r show ?thesis by (simp add: fulfill_def)
  qed
qed

text \<open>
  Claim C4. Handling a response line never throws. A line that does not parse, a
  response without a readable id and a response whose id has no pending entry leave the
  client exactly as it was. When the id of the response has a pending entry, the entry is
  deleted first; then one of its closures (resolve or reject) runs on the state without
  the entry and leaves the map alone, or building the Error for \<open>reject\<close> throws (only
  when the \<open>message\<close> of the response's error does not convert to a string), no closure
  runs and the \<open>catch\<close> leaves the state without the entry. Either way the id has no
  entry afterwards, so the same line handled a second time changes nothing.
\<close>

theorem duplicate_response_discarded:
  "(\<exists>c'. handle_line parse c line = Some c')
   \<and> (parse line = None \<longrightarrow> handle_line parse c line = Some c)
   \<and> (parse line = Some response \<and> js_get response ''id'' = None \<longrightarrow>
        handle_line parse c line = Some c)
   \<and> (parse line = Some response \<and> js_get response ''id'' = Some rid
        \<and> pending_get c rid = None \<longrightarrow> handle_line parse c line = Some c)
   \<and> (parse line = Some response \<and> js_get response ''id'' = Some rid
        \<and> pending_get c rid = Some h \<longrightarrow>
        handle_line parse c line
          = Some (case fulfill h response (pending_delete rid c) of
                    Some c' \<Rightarrow> c' | None \<Rightarrow> pending_delete rid c)
        \<and> pending_get (pending_delete rid c) rid = None
        \<and> (\<forall>c'. fulfill h response (pending_delete rid c) = Some c' \<longrightarrow>
              pendingRequests c' = pendingRequests (pending_delete rid c)
              \<and> ((\<exists>v. c' = entry_resolve h v (pending_delete rid c))
                  \<or> (\<exists>v. c' = entry_reject h v (pending_delete rid c))))
        \<and> (fulfill h response (pending_delete rid c) = None \<longrightarrow>
              (\<exists>err message. js_get response ''error'' = Some err \<and> truthy err
                 \<and> js_get err ''message'' = Some message \<and> \<not> convertible message))
        \<and> (\<forall>c'. handle_line parse c line = Some c' \<longrightarrow>
              pending_get c' rid = None
              \<and> pendingRequests c' = pendingRequests (pending_delete rid c)))
   \<and> (handle_line parse c line = Some c1 \<longrightarrow> handle_line parse c1 line = Some c1)"
proof (intro conjI impI allI)
  show "\<exists>c'. handle_line parse c line = Some c'"
    by (rule handle_line_total)
  show "handle_line parse c line = Some c" if "parse line = None"
    using that by (rule handle_line_unparsed)
  show "handle_line parse c line = Some c"
    if "parse line = Some response \<and> js_get response ''id'' = None"
    using handle_line_no_id[of parse line response c] that by simp
  show "handle_line parse c line = Some c"
    if "parse line = Some response \<and> js_get response ''id'' = Some rid
        \<and> pending_get c rid = None"
    using handle_line_not_pending[of parse line response rid c] that by simp
  show "handle_line parse c line
          = Some (case fulfill h response (pending_delete rid c) of
                    Some c' \<Rightarrow> c' | None \<Rightarrow> pending_delete rid c)"
    if "parse line = Some response \<and> js_get response ''id'' = Some rid
        \<and> pending_get c rid = Some h"
    using handle_line_pending[of parse line response rid c h] that by simp
  show "pending_get (pending_delete rid c) rid = None"
    by (rule pending_get_delete)
  show "pendingRequests c' = pendingRequests (pending_delete rid c)"
    if "fulfill h response (pending_delete rid c) = Some c'" for c'
    using that by (rule fulfill_frame(2))
  show "(\<exists>v. c' = entry_resolve h v (pending_delete rid c))
          \<or> (\<exists>v. c' = entry_reject h v (pending_delete rid c))"
    if "fulfill h response (pending_delete rid c) = Some c'" for c'
    using that by (rule fulfill_result)
  show "\<exists>err message. js_get response ''error'' = Some err \<and> truthy err
                 \<and> js_get err ''message'' = Some message \<and> \<not> convertible message"
    if "parse line = Some response \<and> js_get response ''id'' = Some rid
        \<and> pending_get c rid = Some h"
      and "fulfill h response (pending_delete rid c) = None"
    using fulfill_thrown[of h response "pending_delete rid c" rid] that by simp
  show "pending_get c' rid = None"
    if "parse line = Some response \<and> js_get response ''id'' = Some rid
        \<and> pending_get c rid = Some h" and "handle_line parse c line = Some c'" for c'
    using handle_line_removes(1)[of parse line response rid c h c'] that by simp
  show "pendingRequests c' = pendingRequests (pending_delete rid c)"
    if "parse line = Some response \<and> js_get response ''id'' = Some rid
        \<and> pending_get c rid = Some h" and "handle_line parse c line = Some c'" for c'
    using handle_line_removes(2)[of parse line response rid c h c'] that by simp
  show "handle_line parse c1 line = Some c1" if "handle_line parse c line = Some c1"
    using that by (rule handle_line_duplicate)
qed

theorem duplicate_response_discarded_witness:
  \<open>handle_line JSON_parse example_client ''{"jsonrpc":"2.0","id":1,"result":{}}''
     = Some (entry_resolve 0 (JObj []) (pending_delete (JNum (Finite 1)) example_client))
   \<and> handle_line JSON_parse
        (entry_resolve 0 (JObj []) (pending_delete (JNum (Finite 1)) example_client))
        ''{"jsonrpc":"2.0","id":1,"result":{}}''
     = Some (entry_resolve 0 (JObj []) (pending_delete (JNum (Finite 1)) example_client))
   \<and> pending_get (entry_resolve 0 (JObj []) (pending_delete (JNum (Finite 1)) example_client))
        (JNum (Finite 1)) = None
   \<and> handle_line JSON_parse example_client
        ''{"jsonrpc":"2.0","id":1,"error":{"message":{"toString":1}}}''
     = Some (pending_delete (JNum (Finite 1)) example_client)
   \<and> handle_line JSON_parse (pending_delete (JNum (Finite 1)) example_client)
        ''{"jsonrpc":"2.0","id":1,"error":{"message":{"toString":1}}}''
     = Some (pending_delete (JNum (Finite 1)) example_client)
   \<and> callers (pending_delete (JNum (Finite 1)) example_client)
     = [\<lparr>call_id = 1, timer = Some 20000, promise = None\<rparr>]
   \<and> handle_line JSON_parse example_client ''{"jsonrpc":"2.0","id":7,"result":{}}''
     = Some example_client
   \<and> handle_line JSON_parse example_client ''Notion MCP Server started'' = Some example_client
   \<and> handle_line JSON_parse example_client ''null'' = Some example_client\<close>
proof -
  let ?l1 = \<open>''{"jsonrpc":"2.0","id":1,"result":{}}''\<close>
  let ?l7 = \<open>''{"jsonrpc":"2.0","id":7,"result":{}}''\<close>
  let ?le = \<open>''{"jsonrpc":"2.0","id":1,"error":{"message":{"toString":1}}}''\<close>
  let ?r1 = "JObj [(''jsonrpc'', JStr ''2.0''), (''id'', JNum (Finite 1)), (''result'', JObj [])]"
  let ?r7 = "JObj [(''jsonrpc'', JStr ''2.0''), (''id'', JNum (Finite 7)), (''result'', JObj [])]"
  let ?re = "JObj [(''jsonrpc'', JStr ''2.0''), (''id'', JNum (Finite 1)),
                   (''error'', JObj [(''message'', JObj [(''toString'', JNum (Finite 1))])])]"
  let ?d = "pending_delete (JNum (Finite 1)) example_client"
  let ?c1 = "entry_resolve 0 (JObj []) ?d"
  have p: "JSON_parse ?l1 = Some ?r1" "JSON_parse ?l7 = Some ?r7"
    "JSON_parse ''Notion MCP Server started'' = None" "JSON_parse ''null'' = Some JNull"
    "JSON_parse ?le = Some ?re"
    by code_simp+
  have g: "js_get ?r1 ''id'' = Some (JNum (Finite 1))" "js_get ?r7 ''id'' = Some (JNum (Finite 7))"
    "js_get JNull ''id'' = None" "js_get ?re ''id'' = Some (JNum (Finite 1))"
    by simp_all
  have k1: "pending_get example_client (JNum (Finite 1)) = Some 0"
    using pending_key_int[of 1] by (simp add: pending_get_def example_client_state)
  have "pendingRequests example_client 7 = None"
    by (simp add: example_client_def callMCPTool_def getNextId_def increment_def Let_def
          sendMCPRequest_def spawned_def)
  then have k7: "pending_get example_client (JNum (Finite 7)) = None"
    using pending_key_int[of 7] by (simp add: pending_get_def)
  have f: "fulfill 0 ?r1 ?d = Some ?c1"
    by (simp add: fulfill_def)
  have fe: "fulfill 0 ?re ?d = None"
    by (simp add: fulfill_def new_Error_def)
  note T1 = duplicate_response_discarded[of JSON_parse example_client ?l1 ?r1 "JNum (Finite 1)" 0 ?c1]
  from T1 p(1) g(1) k1 have "handle_line JSON_parse example_client ?l1
      = Some (case fulfill 0 ?r1 ?d of Some c' \<Rightarrow> c' | None \<Rightarrow> ?d)"
    by blast
  then have a: "handle_line JSON_parse example_client ?l1 = Some ?c1"
    by (simp only: f option.case)
  with T1 have b: "handle_line JSON_parse ?c1 ?l1 = Some ?c1"
    by blast
  from T1 p(1) g(1) k1 a have c: "pending_get ?c1 (JNum (Finite 1)) = None"
    by blast
  note Te = duplicate_response_discarded[of JSON_parse example_client ?le ?re "JNum (Finite 1)" 0 ?d]
  from Te p(5) g(4) k1 have "handle_line JSON_parse example_client ?le
      = Some (case fulfill 0 ?re ?d of Some c' \<Rightarrow> c' | None \<Rightarrow> ?d)"
    by blast
  then have x: "handle_line JSON_parse example_client ?le = Some ?d"
    by (simp only: fe option.case)
  with Te have y: "handle_line JSON_parse ?d ?le = Some ?d"
    by blast
  have z: "callers ?d = [\<lparr>call_id = 1, timer = Some 20000, promise = None\<rparr>]"
    by (simp add: example_client_state)
  from duplicate_response_discarded[of JSON_parse example_client ?l7 ?r7 "JNum (Finite 7)"]
    p(2) g(2) k7
  have d: "handle_line JSON_parse example_client ?l7 = Some example_client"
    by blast
  from duplicate_response_discarded[of JSON_parse example_client "''Notion MCP Server started''"]
    p(3)
  have e: "handle_line JSON_parse example_client ''Notion MCP Server started'' = Some example_client"
    by blast
  from duplicate_response_discarded[of JSON_parse example_client "''null''" JNull] p(4) g(3)
  have n: "handle_line JSON_parse example_client ''null'' = Some example_client"
    by blast
  from a b c x y z d e n show ?thesis by blast
qed

text \<open>
  Claim C5. Every request sent arms a timer of 20000 ms and registers its entry. In every
  state a session reaches, each entry of the map belongs to a call whose timer is still
  armed and whose promise is unsettled; and when the timer of a call fires while still
  armed (no response has fulfilled the call, since fulfilling clears the timer), the
  entry under the call's id is removed and the caller's promise is rejected with the
  timeout's Error, which is not the Error of any error response; afterwards the map has
  no entry for that id.
\<close>

theorem timeout_rejects_caller:
  "(mcpProcess c \<longrightarrow>
      (\<exists>c'. sendMCPRequest c req = Some (length (callers c), c')
         \<and> callers c' ! length (callers c)
             = \<lparr>call_id = req_id req, timer = Some 20000, promise = None\<rparr>
         \<and> pendingRequests c' (req_id req) = Some (length (callers c))))
   \<and> (pendingRequests (run parse spawned es) k = Some h \<longrightarrow>
        h < length (callers (run parse spawned es))
        \<and> call_id (callers (run parse spawned es) ! h) = k
        \<and> timer (callers (run parse spawned es) ! h) = Some 20000
        \<and> promise (callers (run parse spawned es) ! h) = None)
   \<and> (h < length (callers (run parse spawned es))
       \<and> timer (callers (run parse spawned es) ! h) \<noteq> None \<longrightarrow>
        promise (callers (on_timeout h (run parse spawned es)) ! h) = Some Rejected_Timeout
        \<and> (\<forall>message. promise (callers (on_timeout h (run parse spawned es)) ! h)
              \<noteq> Some (Rejected_Error message))
        \<and> pendingRequests (on_timeout h (run parse spawned es))
             (call_id (callers (run parse spawned es) ! h)) = None
        \<and> timer (callers (on_timeout h (run parse spawned es)) ! h) = None)"
proof (intro conjI impI)
  show "\<exists>c'. sendMCPRequest c req = Some (length (callers c), c')
         \<and> callers c' ! length (callers c)
             = \<lparr>call_id = req_id req, timer = Some 20000, promise = None\<rparr>
         \<and> pendingRequests c' (req_id req) = Some (length (callers c))"
    if "mcpProcess c"
    using that by (rule sendMCPRequest_arms)
next
  let ?c = "run parse spawned es"
  assume p: "pendingRequests ?c k = Some h"
  have "entries_armed ?c"
    by (rule entries_armed_run)
  with p have e: "h < length (callers ?c)" "call_id (callers ?c ! h) = k"
    "timer (callers ?c ! h) = Some 20000"
    by (simp_all add: entries_armed_def)
  have "armed_unsettled ?c"
    by (rule armed_run)
  with e have "promise (callers ?c ! h) = None"
    by (simp add: armed_unsettled_def)
  with e show "h < length (callers ?c)" "call_id (callers ?c ! h) = k"
    "timer (callers ?c ! h) = Some 20000" "promise (callers ?c ! h) = None"
    by simp_all
next
  let ?c = "run parse spawned es"
  assume a: "h < length (callers ?c) \<and> timer (callers ?c ! h) \<noteq> None"
  have "armed_unsettled ?c"
    by (rule armed_run)
  with a have u: "promise (callers ?c ! h) = None"
    by (simp add: armed_unsettled_def)
  from a u show r: "promise (callers (on_timeout h ?c) ! h) = Some Rejected_Timeout"
    using on_timeout_rejects(1)[of h ?c] by simp
  show "\<forall>message. promise (callers (on_timeout h ?c) ! h) \<noteq> Some (Rejected_Error message)"
    by (simp add: r)
  from a u show "pendingRequests (on_timeout h ?c) (call_id (callers ?c ! h)) = None"
    using on_timeout_rejects(2)[of h ?c] by simp
  from a u show "timer (callers (on_timeout h ?c) ! h) = None"
    using on_timeout_rejects(3)[of h ?c] by simp
qed

theorem timeout_rejects_caller_witness:
  "(\<exists>c'. sendMCPRequest spawned
            \<lparr>req_id = 1, req_method = ''initialize'', req_params = initialize_params\<rparr>
          = Some (0, c')
        \<and> callers c' ! 0 = \<lparr>call_id = 1, timer = Some 20000, promise = None\<rparr>
        \<and> pendingRequests c' 1 = Some 0)
   \<and> promise (callers (on_timeout 0 example_client) ! 0) = Some Rejected_Timeout
   \<and> pendingRequests (on_timeout 0 example_client) 1 = None"
proof -
  let ?es = "[Call ''get_page_titles_only'' (JObj [(''limit'', JNum (Finite 3))])]"
  let ?req = "\<lparr>req_id = 1, req_method = ''initialize'', req_params = initialize_params\<rparr>"
  have r: "run JSON_parse spawned ?es = example_client"
    by (rule example_client_run[symmetric])
  have m: "mcpProcess spawned" "length (callers spawned) = 0"
    by (simp_all add: spawned_def)
  have h: "0 < length (callers example_client) \<and> timer (callers example_client ! 0) \<noteq> None"
    "call_id (callers example_client ! 0) = 1"
    by (simp_all add: example_client_state)
  note T = timeout_rejects_caller[of spawned ?req JSON_parse ?es 1 0, unfolded r]
  from T m(1) have "\<exists>c'. sendMCPRequest spawned ?req = Some (length (callers spawned), c')
         \<and> callers c' ! length (callers spawned)
             = \<lparr>call_id = req_id ?req, timer = Some 20000, promise = None\<rparr>
         \<and> pendingRequests c' (req_id ?req) = Some (length (callers spawned))"
    by blast
  then have 1: "\<exists>c'. sendMCPRequest spawned ?req = Some (0, c')
        \<and> callers c' ! 0 = \<lparr>call_id = 1, timer = Some 20000, promise = None\<rparr>
        \<and> pendingRequests c' 1 = Some 0"
    by (simp add: m(2))
  from T h(1) have "promise (callers (on_timeout 0 example_client) ! 0) = Some Rejected_Timeout"
    and "pendingRequests (on_timeout 0 example_client) (call_id (callers example_client ! 0)) = None"
    by blast+
  with 1 h(2) show ?thesis by simp
qed


end
